theory Spec2Isabelle
  imports
    Complex_Main
    "HOL-Library.Char_ord"
    "HOL-Library.List_Lexorder"
    "HOL-Library.Product_Lexorder"
    "HOL-Library.Multiset"
begin

section \<open>Tables of \<^verbatim>\<open>fileprocessor.py\<close>\<close>

text \<open>
  A Polars data frame is a list of rows, and each table of the pipeline is a record with
  one field per column.  The read tables grow column by column, so they are one record
  and its extensions and keep the column names of the source (\<open>length\<close> is written
  \<open>length'\<close>).  The exon table, the CDS table, the histogram fed to
  \<^verbatim>\<open>change_point_analysis\<close> and the two tables built inside \<^verbatim>\<open>asitecalc\<close>
  repeat some of those column names and carry a prefix instead.

  Integer columns are 64-bit signed integers in Polars.  They are \<open>int\<close> here, and
  every sum, difference and aggregate that Polars computes on a column is wrapped into the
  64-bit range by \<open>wrap64\<close>, as Polars wraps it; what Python computes on its own
  integers is not.  The tables handed to the pipeline hold no nulls.  Chromosome and
  transcript names are strings, compared byte by byte.
\<close>

datatype error = NoDataError | KeyError | ValueError | ComputeError

definition int64 :: "int \<Rightarrow> bool" where
  "int64 x \<longleftrightarrow> - (2 ^ 63) \<le> x \<and> x < 2 ^ 63"

definition wrap64 :: "int \<Rightarrow> int" where
  "wrap64 x = (x + 2 ^ 63) mod 2 ^ 64 - 2 ^ 63"

record bam_row =
  count :: int
  chr :: string
  start :: int
  stop :: int
  length' :: int

record tran_row = bam_row +
  tran_id :: string

text \<open>The rows \<^verbatim>\<open>get_bam_tran\<close> produces.\<close>

record bam_tran_row = tran_row +
  tran_start_bam :: int
  tran_stop_bam :: int

text \<open>
  The rows \<^verbatim>\<open>bamrelativetocds\<close> produces.  The column \<^verbatim>\<open>bamcds_start\<close> is built
  from the values a Python function returns; a value that is no 64-bit integer becomes a
  null, \<open>None\<close>.
\<close>

record bam_cds_row = tran_row +
  bamcds_start :: "int option"

text \<open>
  The exon table after the \<^verbatim>\<open>explode\<close> of \<^verbatim>\<open>bamtranscript\<close>: one row per exon,
  with the columns \<^verbatim>\<open>chr, start, stop, tran_id, tran_start, tran_stop\<close>.
\<close>

record exon_row =
  exon_chr :: string
  exon_start :: int
  exon_stop :: int
  exon_tran_id :: string
  tran_start :: int
  tran_stop :: int

text \<open>The CDS table: columns \<^verbatim>\<open>tran_id, tran_start\<close>.\<close>

record cds_row =
  cds_tran_id :: string
  cds_tran_start :: int

text \<open>
  The histogram \<^verbatim>\<open>dftobed\<close> hands to \<^verbatim>\<open>change_point_analysis\<close>: columns
  \<^verbatim>\<open>bamcds_start, length, count\<close>.
\<close>

record hist_row =
  hist_bamcds_start :: int
  hist_length :: int
  hist_count :: int

section \<open>\<^verbatim>\<open>change_point_analysis\<close>\<close>

text \<open>
  \<^verbatim>\<open>left_df = offset_df_len.filter(pl.col("bamcds_start") == j)\<close>, then the count of its
  first row, or 0 when it is empty.
\<close>

definition count_at :: "hist_row list \<Rightarrow> int \<Rightarrow> int" where
  "count_at offset_df_len j =
     (case filter (\<lambda>r. hist_bamcds_start r = j) offset_df_len of
        [] \<Rightarrow> 0
      | r # _ \<Rightarrow> hist_count r)"

text \<open>The list \<^verbatim>\<open>left\<close> built by \<^verbatim>\<open>for j in range(i - 3, i + 1)\<close>.\<close>

definition left_counts :: "hist_row list \<Rightarrow> int \<Rightarrow> int list" where
  "left_counts offset_df_len i = map (count_at offset_df_len) [i - 3..i]"

text \<open>The list \<^verbatim>\<open>right\<close> built by \<^verbatim>\<open>for j in range(i + 1, i + 5)\<close>.\<close>

definition right_counts :: "hist_row list \<Rightarrow> int \<Rightarrow> int list" where
  "right_counts offset_df_len i = map (count_at offset_df_len) [i + 1..i + 4]"

text \<open>
  The loop \<^verbatim>\<open>for i in range(-30, 11)\<close>.  Its body only rebinds \<^verbatim>\<open>left\<close> and
  \<^verbatim>\<open>right\<close>; the variables \<^verbatim>\<open>i\<close>, \<^verbatim>\<open>left\<close> and \<^verbatim>\<open>right\<close> are what the code
  after the loop reads.  The first iteration gives the starting state, the fold runs the
  other forty.
\<close>

definition scan_body :: "hist_row list \<Rightarrow> int \<Rightarrow> int \<times> int list \<times> int list" where
  "scan_body offset_df_len i = (i, left_counts offset_df_len i, right_counts offset_df_len i)"

definition scan_loop :: "hist_row list \<Rightarrow> int \<times> int list \<times> int list" where
  "scan_loop offset_df_len =
     fold (\<lambda>i _. scan_body offset_df_len i) [-29..10] (scan_body offset_df_len (-30))"

text \<open>
  The variables that live across the iterations of \<^verbatim>\<open>for length in ...\<close>:
  \<^verbatim>\<open>max_shift\<close>, \<^verbatim>\<open>max_shift_position\<close> (\<open>None\<close> is Python's \<^verbatim>\<open>None\<close>) and
  \<^verbatim>\<open>offset_dict\<close>.  The means are quotients by 4 of integer sums, which floating point
  represents exactly, so they are rationals here.
\<close>

record cpa_state =
  max_shift :: rat
  max_shift_position :: "int option"
  offset_dict :: "int \<rightharpoonup> int"

definition cpa_init :: cpa_state where
  "cpa_init = \<lparr>max_shift = 0, max_shift_position = None, offset_dict = Map.empty\<rparr>"

text \<open>
  One iteration of \<^verbatim>\<open>for length in offset_df["length"].unique()\<close>: the rows of the
  length, sorted by \<^verbatim>\<open>bamcds_start\<close>; the loop over \<^verbatim>\<open>i\<close>; then, after that loop,
  the means, the shift, the update of the maximum and the entry of the dictionary.
\<close>

definition cpa_step :: "hist_row list \<Rightarrow> int \<Rightarrow> cpa_state \<Rightarrow> cpa_state" where
  "cpa_step offset_df len st =
     (let offset_df_len = sort_key hist_bamcds_start (filter (\<lambda>r. hist_length r = len) offset_df);
          (i, left, right) = scan_loop offset_df_len;
          mean_left = rat_of_int (sum_list left) / 4;
          mean_right = rat_of_int (sum_list right) / 4;
          shift = \<bar>mean_right - mean_left\<bar>;
          st1 = (if shift > max_shift st
                 then st\<lparr>max_shift := shift, max_shift_position := Some i\<rparr>
                 else st)
      in (case max_shift_position st1 of
            None \<Rightarrow> st1\<lparr>offset_dict := (offset_dict st1)(len \<mapsto> 15)\<rparr>
          | Some p \<Rightarrow> st1\<lparr>offset_dict := (offset_dict st1)(len \<mapsto> p)\<rparr>))"

text \<open>
  \<^verbatim>\<open>change_point_analysis\<close>.  Polars does not fix the order in which
  \<^verbatim>\<open>unique()\<close> yields the lengths, so the order is the argument \<open>lens\<close>: any list of
  the distinct lengths of the table.
\<close>

definition change_point_analysis :: "int list \<Rightarrow> hist_row list \<Rightarrow> (int \<rightharpoonup> int)" where
  "change_point_analysis lens offset_df = offset_dict (fold (cpa_step offset_df) lens cpa_init)"

definition unique_lengths :: "int list \<Rightarrow> hist_row list \<Rightarrow> bool" where
  "unique_lengths lens offset_df \<longleftrightarrow> distinct lens \<and> set lens = hist_length ` set offset_df"

subsection \<open>The algorithm as the specification words it\<close>

text \<open>
  The sparse histogram \<open>H\<close> of one length: the total count at each position, zero where
  there is none.
\<close>

definition spec_H :: "hist_row list \<Rightarrow> int \<Rightarrow> int \<Rightarrow> int" where
  "spec_H offset_df len j =
     sum_list (map hist_count
       (filter (\<lambda>r. hist_length r = len \<and> hist_bamcds_start r = j) offset_df))"

definition spec_shift :: "(int \<Rightarrow> int) \<Rightarrow> int \<Rightarrow> rat" where
  "spec_shift H i =
     \<bar>rat_of_int (sum_list (map H [i + 1..i + 4])) / 4 - rat_of_int (sum_list (map H [i - 3..i])) / 4\<bar>"

text \<open>
  The first candidate of the scan range, in increasing order, whose shift is the greatest;
  the fallback 15 when no shift is positive.
\<close>

definition spec_offset :: "(int \<Rightarrow> int) \<Rightarrow> int" where
  "spec_offset H =
     (let best = fold (\<lambda>i (m, p). if spec_shift H i > m then (spec_shift H i, Some i) else (m, p))
                   [-30..10] (0, None)
      in case snd best of None \<Rightarrow> 15 | Some p \<Rightarrow> p)"

section \<open>\<^verbatim>\<open>get_bam_tran\<close>\<close>

text \<open>
  \<^verbatim>\<open>bam_df.join(exon_df, on="chr")\<close>: the inner join, every read row paired with every
  exon row of the same chromosome.  The exon columns \<^verbatim>\<open>start\<close> and \<^verbatim>\<open>stop\<close> are
  \<^verbatim>\<open>start_right\<close> and \<^verbatim>\<open>stop_right\<close> in the joined table; here they are the
  fields \<open>exon_start\<close> and \<open>exon_stop\<close> of the second component.

  Polars promises no row order for a join.  Its hash join probes with the longer table and
  emits the rows in the order of that table: in the order of the reads when there are more
  reads than exons, in the order of the exons otherwise.  The statements about the join are
  about its rows as a multiset or a set.
\<close>

definition df_join :: "bam_row list \<Rightarrow> exon_row list \<Rightarrow> (bam_row \<times> exon_row) list" where
  "df_join bam_df exon_df =
     (if length bam_df > length exon_df
      then concat (map (\<lambda>b. map (Pair b) (filter (\<lambda>e. exon_chr e = chr b) exon_df)) bam_df)
      else concat (map (\<lambda>e. map (\<lambda>b. (b, e)) (filter (\<lambda>b. chr b = exon_chr e) bam_df))
                    exon_df))"

fun contained :: "bam_row \<times> exon_row \<Rightarrow> bool" where
  "contained (b, e) \<longleftrightarrow> start b \<ge> exon_start e \<and> stop b \<le> exon_stop e"

text \<open>
  The two \<^verbatim>\<open>with_columns\<close> and the \<^verbatim>\<open>select\<close> that drops \<^verbatim>\<open>stop_right\<close>,
  \<^verbatim>\<open>start_right\<close>, \<^verbatim>\<open>tran_start\<close> and \<^verbatim>\<open>tran_stop\<close>.  Each of the four
  column operations wraps.
\<close>

fun project :: "bam_row \<times> exon_row \<Rightarrow> bam_tran_row" where
  "project (b, e) =
     \<lparr>count = count b, chr = chr b, start = start b, stop = stop b, length' = length' b,
      tran_id = exon_tran_id e,
      tran_start_bam = wrap64 (tran_start e + wrap64 (start b - exon_start e)),
      tran_stop_bam = wrap64 (tran_stop e - wrap64 (exon_stop e - stop b))\<rparr>"

definition get_bam_tran :: "bam_row list \<Rightarrow> exon_row list \<Rightarrow> bam_tran_row list" where
  "get_bam_tran bam_df exon_df = map project (filter contained (df_join bam_df exon_df))"

section \<open>\<^verbatim>\<open>bamtranscript\<close>\<close>

text \<open>Python's \<^verbatim>\<open>range(lo, hi, step)\<close> for a positive step.\<close>

function py_range :: "int \<Rightarrow> int \<Rightarrow> int \<Rightarrow> int list" where
  "py_range lo hi step = (if 0 < step \<and> lo < hi then lo # py_range (lo + step) hi step else [])"
  by pat_completeness auto
termination
  by (relation "measure (\<lambda>(lo, hi, step). nat (hi - lo))") auto

declare py_range.simps [simp del]

text \<open>
  The two filters inside the window loop, with \<^verbatim>\<open>rng = i + 225000\<close>:
  \<^verbatim>\<open>(pl.col("start") >= i) & (pl.col("stop") <= rng)\<close>.
\<close>

definition window_exon :: "exon_row list \<Rightarrow> int \<Rightarrow> exon_row list" where
  "window_exon exon_with_chr i =
     (let rng = i + 225000
      in filter (\<lambda>e. exon_start e \<ge> i \<and> exon_stop e \<le> rng) exon_with_chr)"

definition window_bam :: "bam_row list \<Rightarrow> int \<Rightarrow> bam_row list" where
  "window_bam bam_with_chr i =
     (let rng = i + 225000
      in filter (\<lambda>b. start b \<ge> i \<and> stop b \<le> rng) bam_with_chr)"

text \<open>The body of the window loop: what it appends to \<^verbatim>\<open>results\<close>.\<close>

definition window_result :: "bam_row list \<Rightarrow> exon_row list \<Rightarrow> int \<Rightarrow> bam_tran_row list list" where
  "window_result bam_with_chr exon_with_chr i =
     (let exon_chr = window_exon exon_with_chr i;
          bam_chr = window_bam bam_with_chr i
      in if exon_chr \<noteq> [] \<and> bam_chr \<noteq> [] then [get_bam_tran bam_chr exon_chr] else [])"

text \<open>
  The body of \<^verbatim>\<open>for chr in bam_df["chr"].unique()\<close>.  Python's \<^verbatim>\<open>min\<close> and
  \<^verbatim>\<open>max\<close> raise \<^verbatim>\<open>ValueError\<close> on an empty column.
\<close>

definition chr_windows :: "exon_row list \<Rightarrow> int list" where
  "chr_windows exon_with_chr =
     (let min_val = Min (set (map exon_start exon_with_chr));
          max_val = Max (set (map exon_stop exon_with_chr))
      in py_range min_val max_val 225000)"

definition chr_results ::
  "bam_row list \<Rightarrow> exon_row list \<Rightarrow> string \<Rightarrow> error + bam_tran_row list list" where
  "chr_results bam_df exon_flattened c =
     (let bam_with_chr = filter (\<lambda>b. chr b = c) bam_df;
          exon_with_chr = filter (\<lambda>e. exon_chr e = c) exon_flattened
      in if exon_with_chr = [] then Inl ValueError
         else Inr (concat (map (window_result bam_with_chr exon_with_chr)
                             (chr_windows exon_with_chr))))"

fun chr_loop ::
  "bam_row list \<Rightarrow> exon_row list \<Rightarrow> string list \<Rightarrow> bam_tran_row list list
     \<Rightarrow> error + bam_tran_row list list" where
  "chr_loop bam_df exon_flattened [] results = Inr results"
| "chr_loop bam_df exon_flattened (c # cs) results =
     (case chr_results bam_df exon_flattened c of
        Inl e \<Rightarrow> Inl e
      | Inr rs \<Rightarrow> chr_loop bam_df exon_flattened cs (results @ rs))"

text \<open>
  The restriction of each table to the chromosomes of the other
  (\<^verbatim>\<open>is_in(uniquechr_exon)\<close>, \<^verbatim>\<open>is_in(uniquechr_bam)\<close>).
\<close>

definition shared_chr_bam :: "bam_row list \<Rightarrow> exon_row list \<Rightarrow> bam_row list" where
  "shared_chr_bam bam_df exon_df =
     (let uniquechr_exon = remdups (map exon_chr exon_df)
      in filter (\<lambda>b. chr b \<in> set uniquechr_exon) bam_df)"

definition shared_chr_exon :: "bam_row list \<Rightarrow> exon_row list \<Rightarrow> exon_row list" where
  "shared_chr_exon bam_df exon_df =
     (let uniquechr_bam = remdups (map chr bam_df)
      in filter (\<lambda>e. exon_chr e \<in> set uniquechr_bam) exon_df)"

text \<open>
  \<^verbatim>\<open>pl.from_dicts(results)\<close> makes one row of list-valued columns per window result, and
  \<^verbatim>\<open>explode\<close> turns a row whose lists have \<open>n\<close> elements into \<open>n\<close> rows; a row of
  empty lists becomes one row of nulls, which is \<open>None\<close> here.
\<close>

definition explode :: "'a list list \<Rightarrow> 'a option list" where
  "explode results = concat (map (\<lambda>d. if d = [] then [None] else map Some d) results)"

text \<open>
  \<^verbatim>\<open>bamtranscript\<close>, on the exploded exon table.  \<^verbatim>\<open>pl.from_dicts\<close> raises
  \<^verbatim>\<open>NoDataError\<close> on an empty list.  The chromosomes are visited in the order of
  \<open>remdups\<close>; Polars does not fix the order of \<^verbatim>\<open>unique()\<close>, which only permutes the
  rows of the result.
\<close>

definition bamtranscript ::
  "bam_row list \<Rightarrow> exon_row list \<Rightarrow> error + bam_tran_row option list" where
  "bamtranscript bam_df0 exon_df =
     (let bam_df = shared_chr_bam bam_df0 exon_df;
          exon_flattened = shared_chr_exon bam_df0 exon_df
      in case chr_loop bam_df exon_flattened (remdups (map chr bam_df)) [] of
           Inl e \<Rightarrow> Inl e
         | Inr results \<Rightarrow> if results = [] then Inl NoDataError else Inr (explode results))"

section \<open>\<^verbatim>\<open>bamrelativetocds\<close>\<close>

definition calculate_differences :: "int \<Rightarrow> int \<Rightarrow> int" where
  "calculate_differences start0 start_dict = start0 - start_dict"

text \<open>
  The read table is the one \<^verbatim>\<open>bamtranscript\<close> returns, so it may hold rows of nulls.
  A null \<^verbatim>\<open>tran_id\<close> is in no list of names: \<^verbatim>\<open>is_in\<close> is not true of it and the
  filter drops the row.
\<close>

definition non_null :: "'a option list \<Rightarrow> 'a list" where
  "non_null rows = concat (map (\<lambda>x. case x of None \<Rightarrow> [] | Some r \<Rightarrow> [r]) rows)"

definition shared_tran_bam ::
  "bam_tran_row option list \<Rightarrow> cds_row list \<Rightarrow> bam_tran_row list" where
  "shared_tran_bam bamdf cdsdf =
     (let uniquetran_cds = remdups (map cds_tran_id cdsdf)
      in filter (\<lambda>x. tran_id x \<in> set uniquetran_cds) (non_null bamdf))"

definition shared_tran_cds :: "bam_tran_row option list \<Rightarrow> cds_row list \<Rightarrow> cds_row list" where
  "shared_tran_cds bamdf cdsdf =
     (let uniquetran_bam = remdups (map (map_option tran_id) bamdf)
      in filter (\<lambda>c. Some (cds_tran_id c) \<in> set uniquetran_bam) cdsdf)"

text \<open>\<^verbatim>\<open>dict(zip(keys, values))\<close>: a later pair overwrites an earlier one with its key.\<close>

definition py_dict :: "('k \<times> 'v) list \<Rightarrow> ('k \<rightharpoonup> 'v)" where
  "py_dict kvs = fold (\<lambda>(k, v) m. m(k \<mapsto> v)) kvs Map.empty"

definition start_dict_of :: "cds_row list \<Rightarrow> (string \<rightharpoonup> int)" where
  "start_dict_of cds_df = py_dict (zip (map cds_tran_id cds_df) (map cds_tran_start cds_df))"

text \<open>
  The lambda applied to each row, followed by the \<^verbatim>\<open>select\<close> that drops
  \<^verbatim>\<open>tran_start_bam\<close> and \<^verbatim>\<open>tran_stop_bam\<close>; \<^verbatim>\<open>start_dict[x["tran_id"]]\<close> raises
  \<^verbatim>\<open>KeyError\<close> on a missing key.  The difference is Python's, on unbounded integers;
  the new column takes it when it is a 64-bit integer.
\<close>

definition relative_row :: "(string \<rightharpoonup> int) \<Rightarrow> bam_tran_row \<Rightarrow> error + bam_cds_row" where
  "relative_row start_dict x =
     (case start_dict (tran_id x) of
        None \<Rightarrow> Inl KeyError
      | Some s \<Rightarrow>
          Inr \<lparr>count = count x, chr = chr x, start = start x, stop = stop x,
               length' = length' x, tran_id = tran_id x,
               bamcds_start =
                 (let d = calculate_differences (tran_start_bam x) s
                  in if int64 d then Some d else None)\<rparr>)"

fun apply_rows :: "('a \<Rightarrow> error + 'b) \<Rightarrow> 'a list \<Rightarrow> error + 'b list" where
  "apply_rows f [] = Inr []"
| "apply_rows f (x # xs) =
     (case f x of
        Inl e \<Rightarrow> Inl e
      | Inr y \<Rightarrow> (case apply_rows f xs of Inl e \<Rightarrow> Inl e | Inr ys \<Rightarrow> Inr (y # ys)))"

text \<open>
  \<^verbatim>\<open>bamrelativetocds\<close>.  On a read table that the restriction leaves empty the
  \<^verbatim>\<open>apply\<close> has no value to take the type of the new column from, and Polars raises
  \<^verbatim>\<open>ComputeError\<close>.
\<close>

definition bamrelativetocds ::
  "bam_tran_row option list \<Rightarrow> cds_row list \<Rightarrow> error + bam_cds_row list" where
  "bamrelativetocds bamdf cdsdf =
     (let bam_df = shared_tran_bam bamdf cdsdf;
          cds_df = shared_tran_cds bamdf cdsdf;
          start_dict = start_dict_of cds_df
      in if bam_df = [] then Inl ComputeError
         else apply_rows (relative_row start_dict) bam_df)"

text \<open>
  The columns of the tables, by name.  \<^verbatim>\<open>bamtranscript\<close> returns the columns it
  explodes; \<^verbatim>\<open>with_columns\<close> appends a column that is new; \<^verbatim>\<open>exclude\<close> removes the
  named columns from a selection.
\<close>

definition bamtranscript_columns :: "string list" where
  "bamtranscript_columns =
     [''count'', ''chr'', ''start'', ''stop'', ''length'', ''tran_id'',
      ''tran_start_bam'', ''tran_stop_bam'']"

definition with_column :: "string \<Rightarrow> string list \<Rightarrow> string list" where
  "with_column c cols = (if c \<in> set cols then cols else cols @ [c])"

definition exclude :: "string list \<Rightarrow> string list \<Rightarrow> string list" where
  "exclude names cols = filter (\<lambda>c. c \<notin> set names) cols"

definition bamrelativetocds_columns :: "string list \<Rightarrow> string list" where
  "bamrelativetocds_columns cols =
     exclude [''tran_start_bam'', ''tran_stop_bam''] (with_column ''bamcds_start'' cols)"

section \<open>\<^verbatim>\<open>asitecalc\<close>\<close>

text \<open>
  The rows of \<^verbatim>\<open>df_asite\<close> before grouping (columns \<^verbatim>\<open>chr, count, A-site\<close>) and the
  rows of \<^verbatim>\<open>df_bed\<close> (columns \<^verbatim>\<open>chr, A-site, stop, count\<close>).
\<close>

record asite_row =
  asite_chr :: string
  asite_count :: int
  a_site :: int

record bed_row =
  bed_chr :: string
  bed_a_site :: int
  bed_stop :: int
  bed_count :: int

text \<open>
  The body of \<^verbatim>\<open>for value, data in df.group_by("length")\<close>; \<^verbatim>\<open>offsets[value]\<close>
  raises \<^verbatim>\<open>KeyError\<close> on a missing length.  The sum \<^verbatim>\<open>pl.col("start") + offsets[value]\<close>
  is a column operation and wraps; the offsets are 64-bit integers.
\<close>

definition length_group :: "bam_cds_row list \<Rightarrow> (int \<rightharpoonup> int) \<Rightarrow> int \<Rightarrow> error + asite_row list" where
  "length_group df offsets v =
     (case offsets v of
        None \<Rightarrow> Inl KeyError
      | Some off \<Rightarrow>
          Inr (map (\<lambda>r. \<lparr>asite_chr = chr r, asite_count = count r,
                          a_site = wrap64 (start r + off)\<rparr>)
                 (filter (\<lambda>r. length' r = v) df)))"

fun group_loop ::
  "bam_cds_row list \<Rightarrow> (int \<rightharpoonup> int) \<Rightarrow> int list \<Rightarrow> asite_row list list
     \<Rightarrow> error + asite_row list list" where
  "group_loop df offsets [] y = Inr y"
| "group_loop df offsets (v # vs) y =
     (case length_group df offsets v of
        Inl e \<Rightarrow> Inl e
      | Inr x \<Rightarrow> group_loop df offsets vs (y @ [x]))"

text \<open>
  \<^verbatim>\<open>group_by("chr", "A-site").agg(pl.col("count").sum())\<close>: one row per distinct key,
  with the wrapped sum of the counts of the key.
\<close>

definition asite_key :: "asite_row \<Rightarrow> string \<times> int" where
  "asite_key r = (asite_chr r, a_site r)"

definition group_sum :: "asite_row list \<Rightarrow> ((string \<times> int) \<times> int) list" where
  "group_sum df_asite =
     map (\<lambda>k. (k, wrap64 (sum_list (map asite_count (filter (\<lambda>r. asite_key r = k) df_asite)))))
       (remdups (map asite_key df_asite))"

text \<open>\<^verbatim>\<open>(pl.col("A-site") + 1).alias("stop")\<close>, which wraps, and the final \<^verbatim>\<open>select\<close>.\<close>

definition to_bed :: "(string \<times> int) \<times> int \<Rightarrow> bed_row" where
  "to_bed = (\<lambda>((c, a), n).
     \<lparr>bed_chr = c, bed_a_site = a, bed_stop = wrap64 (a + 1), bed_count = n\<rparr>)"

definition bed_key :: "bed_row \<Rightarrow> string \<times> int" where
  "bed_key b = (bed_chr b, bed_a_site b)"

text \<open>
  \<^verbatim>\<open>asitecalc\<close>.  The groups of the two \<^verbatim>\<open>group_by\<close> come in the order of
  \<open>remdups\<close>; Polars does not fix it, and the final sort on the key of the second grouping
  makes the result independent of it.  Every list exploded here has an element, so the
  \<^verbatim>\<open>explode\<close> is a concatenation.
\<close>

definition asitecalc :: "bam_cds_row list \<Rightarrow> (int \<rightharpoonup> int) \<Rightarrow> error + bed_row list" where
  "asitecalc df offsets =
     (case group_loop df offsets (remdups (map length' df)) [] of
        Inl e \<Rightarrow> Inl e
      | Inr y \<Rightarrow>
          if y = [] then Inl NoDataError
          else Inr (sort_key bed_key (map to_bed (group_sum (concat y)))))"

subsection \<open>Views of the loops used in the statements\<close>

text \<open>
  The row \<^verbatim>\<open>asitecalc\<close> makes of an input row whose length has an offset, and the key
  \<^verbatim>\<open>(chr, A-site)\<close> of an input row with the A-site \<^verbatim>\<open>start + offsets[length]\<close> as an
  integer, not wrapped.
\<close>

definition shifted :: "(int \<rightharpoonup> int) \<Rightarrow> bam_cds_row \<Rightarrow> asite_row" where
  "shifted offsets r =
     \<lparr>asite_chr = chr r, asite_count = count r,
      a_site = wrap64 (start r + the (offsets (length' r)))\<rparr>"

definition a_site_key :: "(int \<rightharpoonup> int) \<Rightarrow> bam_cds_row \<Rightarrow> string \<times> int" where
  "a_site_key offsets r = (chr r, start r + the (offsets (length' r)))"

text \<open>
  The 64-bit range of \<^verbatim>\<open>asitecalc\<close>: for every input row the offset of its length, its
  A-site, the position after its A-site and the sum of the counts of the rows with its
  key are 64-bit integers, so that none of the column operations wraps.
\<close>

definition asite_in_range :: "(int \<rightharpoonup> int) \<Rightarrow> bam_cds_row list \<Rightarrow> bool" where
  "asite_in_range offsets df \<longleftrightarrow>
     (\<forall>r\<in>set df.
        int64 (the (offsets (length' r))) \<and>
        int64 (start r + the (offsets (length' r))) \<and>
        int64 (start r + the (offsets (length' r)) + 1) \<and>
        int64 (sum_list (map count
                 (filter (\<lambda>r'. a_site_key offsets r' = a_site_key offsets r) df))))"

text \<open>
  The 64-bit range of \<^verbatim>\<open>get_bam_tran\<close>: for every pair the join keeps, the two
  differences and the two projected coordinates are 64-bit integers.
\<close>

definition projection_in_range :: "bam_row list \<Rightarrow> exon_row list \<Rightarrow> bool" where
  "projection_in_range bam_df exon_df \<longleftrightarrow>
     (\<forall>b\<in>set bam_df. \<forall>e\<in>set exon_df.
        exon_chr e = chr b \<and> start b \<ge> exon_start e \<and> stop b \<le> exon_stop e \<longrightarrow>
        int64 (start b - exon_start e) \<and>
        int64 (tran_start e + (start b - exon_start e)) \<and>
        int64 (exon_stop e - stop b) \<and>
        int64 (tran_stop e - (exon_stop e - stop b)))"

text \<open>
  The 64-bit range of \<^verbatim>\<open>bamrelativetocds\<close>: the difference of a read row and a CDS
  row of its transcript is a 64-bit integer.
\<close>

definition difference_in_range :: "bam_tran_row option list \<Rightarrow> cds_row list \<Rightarrow> bool" where
  "difference_in_range bamdf cdsdf \<longleftrightarrow>
     (\<forall>x\<in>set (non_null bamdf). \<forall>c\<in>set cdsdf.
        cds_tran_id c = tran_id x \<longrightarrow> int64 (tran_start_bam x - cds_tran_start c))"

text \<open>The input of \<^verbatim>\<open>asitecalc\<close> in the order of its length groups.\<close>

definition by_length :: "bam_cds_row list \<Rightarrow> bam_cds_row list" where
  "by_length df =
     concat (map (\<lambda>v. filter (\<lambda>r. length' r = v) df) (remdups (map length' df)))"

text \<open>
  The cells of the partition of \<^verbatim>\<open>bamtranscript\<close>: a shared chromosome \<open>c\<close> and a
  window start \<open>i\<close> of that chromosome, with the reads and the exons the two filters
  leave in the cell.
\<close>

definition cell_bam :: "bam_row list \<Rightarrow> exon_row list \<Rightarrow> string \<Rightarrow> int \<Rightarrow> bam_row list" where
  "cell_bam bam_df exon_df c i =
     window_bam (filter (\<lambda>b. chr b = c) (shared_chr_bam bam_df exon_df)) i"

definition cell_exon :: "bam_row list \<Rightarrow> exon_row list \<Rightarrow> string \<Rightarrow> int \<Rightarrow> exon_row list" where
  "cell_exon bam_df exon_df c i =
     window_exon (filter (\<lambda>e. exon_chr e = c) (shared_chr_exon bam_df exon_df)) i"

definition cells :: "bam_row list \<Rightarrow> exon_row list \<Rightarrow> (string \<times> int) list" where
  "cells bam_df exon_df =
     concat (map (\<lambda>c. map (Pair c)
                (chr_windows (filter (\<lambda>e. exon_chr e = c) (shared_chr_exon bam_df exon_df))))
       (remdups (map chr (shared_chr_bam bam_df exon_df))))"

text \<open>No cell holds both a read and an exon.\<close>

definition no_joint_cell :: "bam_row list \<Rightarrow> exon_row list \<Rightarrow> bool" where
  "no_joint_cell bam_df exon_df \<longleftrightarrow>
     list_all (\<lambda>(c, i). cell_bam bam_df exon_df c i = [] \<or> cell_exon bam_df exon_df c i = [])
       (cells bam_df exon_df)"

text \<open>The list \<^verbatim>\<open>results\<close> at the end of the two nested loops.\<close>

definition all_results :: "bam_row list \<Rightarrow> exon_row list \<Rightarrow> bam_tran_row list list" where
  "all_results bam_df exon_df =
     concat (map (\<lambda>c.
        concat (map (window_result (filter (\<lambda>b. chr b = c) (shared_chr_bam bam_df exon_df))
                       (filter (\<lambda>e. exon_chr e = c) (shared_chr_exon bam_df exon_df)))
                  (chr_windows (filter (\<lambda>e. exon_chr e = c) (shared_chr_exon bam_df exon_df)))))
       (remdups (map chr (shared_chr_bam bam_df exon_df))))"

section \<open>The offset inference\<close>

lemma fold_overwrite: "fold (\<lambda>i _. f i) xs s = (if xs = [] then s else f (last xs))"
  by (induction xs arbitrary: s) auto

text \<open>
  What the loop over \<open>i\<close> leaves behind is its last iteration: \<open>i = 10\<close>, the counts at
  7 to 10 and the counts at 11 to 14.
\<close>

lemma scan_loop_last: "scan_loop offset_df_len = scan_body offset_df_len 10"
proof -
  have "[-29..10::int] \<noteq> []" by simp
  moreover have "last [-29..10::int] = 10" by (simp add: upto_rec2)
  ultimately show ?thesis
    unfolding scan_loop_def by (simp only: fold_overwrite if_False)
qed

text \<open>
  So each length is given 10 or 15, whatever the table: a step of the outer loop leaves
  \<^verbatim>\<open>max_shift_position\<close> at \<^verbatim>\<open>None\<close> or at 10.
\<close>

lemma cpa_step_position:
  assumes "max_shift_position st = None \<or> max_shift_position st = Some 10"
  shows "max_shift_position (cpa_step offset_df len st) = None \<or>
         max_shift_position (cpa_step offset_df len st) = Some 10"
  using assms
  by (auto simp: cpa_step_def scan_loop_last scan_body_def Let_def split: option.splits)

lemma cpa_step_entry:
  assumes "max_shift_position st = None \<or> max_shift_position st = Some 10"
  shows "offset_dict (cpa_step offset_df len st) len = Some 10 \<or>
         offset_dict (cpa_step offset_df len st) len = Some 15"
  using assms
  by (auto simp: cpa_step_def scan_loop_last scan_body_def Let_def split: option.splits)

lemma cpa_step_other:
  "k \<noteq> len \<Longrightarrow> offset_dict (cpa_step offset_df len st) k = offset_dict st k"
  by (auto simp: cpa_step_def scan_loop_last scan_body_def Let_def split: option.splits)

lemma cpa_fold_values:
  assumes "max_shift_position st = None \<or> max_shift_position st = Some 10"
    and "len \<in> set lens \<or> offset_dict st len = Some 10 \<or> offset_dict st len = Some 15"
  shows "offset_dict (fold (cpa_step offset_df) lens st) len = Some 10 \<or>
         offset_dict (fold (cpa_step offset_df) lens st) len = Some 15"
  using assms
proof (induction lens arbitrary: st)
  case Nil
  then show ?case by simp
next
  case (Cons l lens)
  have pos: "max_shift_position (cpa_step offset_df l st) = None \<or>
         max_shift_position (cpa_step offset_df l st) = Some 10"
    using Cons.prems(1) by (rule cpa_step_position)
  have "len \<in> set lens \<or> offset_dict (cpa_step offset_df l st) len = Some 10 \<or>
        offset_dict (cpa_step offset_df l st) len = Some 15"
  proof (cases "len = l")
    case True
    then show ?thesis using cpa_step_entry[OF Cons.prems(1), of offset_df l] by simp
  next
    case False
    then show ?thesis using Cons.prems(2) by (simp add: cpa_step_other)
  qed
  with pos have "offset_dict (fold (cpa_step offset_df) lens (cpa_step offset_df l st)) len = Some 10 \<or>
         offset_dict (fold (cpa_step offset_df) lens (cpa_step offset_df l st)) len = Some 15"
    by (intro Cons.IH) simp_all
  then show ?case by simp
qed

lemma change_point_analysis_10_or_15:
  assumes "len \<in> set lens"
  shows "change_point_analysis lens offset_df len = Some 10 \<or>
         change_point_analysis lens offset_df len = Some 15"
  unfolding change_point_analysis_def
  using assms by (intro cpa_fold_values) (simp_all add: cpa_init_def)

text \<open>
  C1.  The claim: the offset of a length is the first candidate of \<open>[-30, 10]\<close> with the
  greatest shift, so a profile with its counts at the positions from 0 on gets an offset
  near 0.  The code computes the shift once per length, after the loop over the
  candidates, from the windows of the last candidate.  On the profile of length 30 with
  count 100 at each position from 0 to 14 the greatest shift is at \<open>-1\<close>, and the code
  returns the fallback 15.
\<close>

theorem change_point_analysis_step_profile:
  "unique_lengths [30]
     (map (\<lambda>j. \<lparr>hist_bamcds_start = j, hist_length = 30, hist_count = 100\<rparr>) [0..14]) \<and>
   change_point_analysis [30]
     (map (\<lambda>j. \<lparr>hist_bamcds_start = j, hist_length = 30, hist_count = 100\<rparr>) [0..14]) 30
     = Some 15 \<and>
   spec_offset (spec_H
     (map (\<lambda>j. \<lparr>hist_bamcds_start = j, hist_length = 30, hist_count = 100\<rparr>) [0..14]) 30)
     = - 1"
  by code_simp

text \<open>
  C2.  The claim: the offset of a length depends only on the rows of that length.  The
  code keeps \<^verbatim>\<open>max_shift\<close> and \<^verbatim>\<open>max_shift_position\<close> from one length to the next.
  Two tables with the same rows of length 30: alone, length 30 gets 15; after a length 28
  with a step at 10, it gets 10; and with length 30 visited before length 28 it gets 15
  again.
\<close>

theorem change_point_analysis_other_lengths:
  "filter (\<lambda>r. hist_length r = 30)
     [\<lparr>hist_bamcds_start = 11, hist_length = 28, hist_count = 4\<rparr>,
      \<lparr>hist_bamcds_start = 50, hist_length = 30, hist_count = 1\<rparr>]
     = filter (\<lambda>r. hist_length r = 30)
         [\<lparr>hist_bamcds_start = 50, hist_length = 30, hist_count = 1\<rparr>] \<and>
   change_point_analysis [30]
     [\<lparr>hist_bamcds_start = 50, hist_length = 30, hist_count = 1\<rparr>] 30 = Some 15 \<and>
   change_point_analysis [28, 30]
     [\<lparr>hist_bamcds_start = 11, hist_length = 28, hist_count = 4\<rparr>,
      \<lparr>hist_bamcds_start = 50, hist_length = 30, hist_count = 1\<rparr>] 30 = Some 10 \<and>
   change_point_analysis [30, 28]
     [\<lparr>hist_bamcds_start = 11, hist_length = 28, hist_count = 4\<rparr>,
      \<lparr>hist_bamcds_start = 50, hist_length = 30, hist_count = 1\<rparr>] 30 = Some 15"
  by code_simp

text \<open>
  C3.  The claim: a length with no positive shift at any candidate gets the fallback 15,
  whatever the other lengths get.  Length 31 below has all its reads at position 40, out
  of reach of every window, so each of its 41 shifts is 0; visited after a length 27 with
  a step at 10 it gets that length's 10.
\<close>

theorem change_point_analysis_flat_after_step:
  "map (spec_shift (spec_H
     [\<lparr>hist_bamcds_start = 12, hist_length = 27, hist_count = 8\<rparr>,
      \<lparr>hist_bamcds_start = 40, hist_length = 31, hist_count = 6\<rparr>] 31)) [-30..10]
     = replicate 41 0 \<and>
   spec_offset (spec_H
     [\<lparr>hist_bamcds_start = 12, hist_length = 27, hist_count = 8\<rparr>,
      \<lparr>hist_bamcds_start = 40, hist_length = 31, hist_count = 6\<rparr>] 31) = 15 \<and>
   change_point_analysis [27, 31]
     [\<lparr>hist_bamcds_start = 12, hist_length = 27, hist_count = 8\<rparr>,
      \<lparr>hist_bamcds_start = 40, hist_length = 31, hist_count = 6\<rparr>] 31 = Some 10"
  by code_simp

section \<open>The interval join\<close>

text \<open>Inside the 64-bit range nothing wraps.\<close>

lemma wrap64_id: "int64 x \<Longrightarrow> wrap64 x = x"
  by (simp add: int64_def wrap64_def)

text \<open>The rows of the join, whichever table Polars probes with.\<close>

lemma set_df_join:
  "set (df_join bam_df exon_df) =
     {(b, e). b \<in> set bam_df \<and> e \<in> set exon_df \<and> exon_chr e = chr b}"
  by (auto simp: df_join_def)

lemma mset_concat_append:
  "mset (concat (map (\<lambda>x. f x @ g x) xs)) = mset (concat (map f xs)) + mset (concat (map g xs))"
  by (induction xs) auto

lemma mset_join_swap:
  "mset (concat (map (\<lambda>e. map (\<lambda>b. (b, e)) (filter (\<lambda>b. chr b = exon_chr e) bam_df)) exon_df)) =
   mset (concat (map (\<lambda>b. map (Pair b) (filter (\<lambda>e. exon_chr e = chr b) exon_df)) bam_df))"
proof (induction exon_df)
  case Nil
  then show ?case by (induction bam_df) auto
next
  case (Cons e es)
  have split: "map (Pair b) (filter (\<lambda>e. exon_chr e = chr b) (e # es)) =
      (if chr b = exon_chr e then [(b, e)] else []) @ map (Pair b) (filter (\<lambda>e. exon_chr e = chr b) es)"
    for b by auto
  have one: "concat (map (\<lambda>b. if chr b = exon_chr e then [(b, e)] else []) bam_df) =
      map (\<lambda>b. (b, e)) (filter (\<lambda>b. chr b = exon_chr e) bam_df)"
    by (induction bam_df) auto
  have "mset (concat (map (\<lambda>b. map (Pair b) (filter (\<lambda>e. exon_chr e = chr b) (e # es))) bam_df)) =
      mset (concat (map (\<lambda>b. if chr b = exon_chr e then [(b, e)] else []) bam_df)) +
      mset (concat (map (\<lambda>b. map (Pair b) (filter (\<lambda>e. exon_chr e = chr b) es)) bam_df))"
    by (simp only: split mset_concat_append)
  then show ?case
    by (simp add: one Cons.IH)
qed

lemma mset_df_join:
  "mset (df_join bam_df exon_df) =
     mset (concat (map (\<lambda>b. map (Pair b) (filter (\<lambda>e. exon_chr e = chr b) exon_df)) bam_df))"
  by (simp add: df_join_def mset_join_swap)

lemma concat_map_cong2:
  assumes "\<And>b e. b \<in> set xs \<Longrightarrow> e \<in> set ys \<Longrightarrow> f b e = g b e"
  shows "concat (map (\<lambda>b. concat (map (f b) ys)) xs) = concat (map (\<lambda>b. concat (map (g b) ys)) xs)"
proof -
  have 1: "map (f b) ys = map (g b) ys" if "b \<in> set xs" for b
    by (rule map_cong[OF refl]) (rule assms[OF that])
  have "map (\<lambda>b. concat (map (f b) ys)) xs = map (\<lambda>b. concat (map (g b) ys)) xs"
    by (rule map_cong[OF refl]) (simp only: 1)
  then show ?thesis by (rule arg_cong)
qed

text \<open>
  The windows of a chromosome start at the least exon start and lie 225000 apart, so no
  window starts inside another one, and a row that crosses the end of one of them fits in
  none.
\<close>

lemma py_range_grid:
  "j \<in> set (py_range lo hi step) \<Longrightarrow> \<exists>k::nat. j = lo + int k * step"
proof (induction lo hi step rule: py_range.induct)
  case (1 lo hi step)
  show ?case
  proof (cases "0 < step \<and> lo < hi")
    case True
    with "1.prems" have "j = lo \<or> j \<in> set (py_range (lo + step) hi step)"
      by (simp add: py_range.simps[of lo hi step])
    then show ?thesis
    proof
      assume "j = lo"
      then have "j = lo + int 0 * step" by simp
      then show ?thesis by blast
    next
      assume "j \<in> set (py_range (lo + step) hi step)"
      with "1.IH" True obtain k :: nat where "j = lo + step + int k * step" by blast
      then have "j = lo + int (Suc k) * step" by (simp add: algebra_simps)
      then show ?thesis by blast
    qed
  next
    case False
    with "1.prems" show ?thesis by (simp add: py_range.simps[of lo hi step])
  qed
qed

lemma window_grid:
  assumes "i \<in> set (chr_windows exon_with_chr)" and "j \<in> set (chr_windows exon_with_chr)"
  shows "\<not> (i < j \<and> j < i + 225000)"
proof -
  obtain m where i: "\<exists>k::nat. i = m + int k * 225000" and j: "\<exists>k::nat. j = m + int k * 225000"
    using assms py_range_grid unfolding chr_windows_def Let_def by blast
  from i obtain k :: nat where "i = m + int k * 225000" by blast
  moreover from j obtain l :: nat where "j = m + int l * 225000" by blast
  ultimately have ij: "i = m + int k * 225000" "j = m + int l * 225000" by simp_all
  show ?thesis
  proof
    assume a: "i < j \<and> j < i + 225000"
    with ij have "int k < int l" by linarith
    with ij a show False by linarith
  qed
qed

lemma crossing_row:
  assumes "i \<in> set (chr_windows exon_with_chr)" and "j \<in> set (chr_windows exon_with_chr)"
    and "s < i + 225000" and "i + 225000 < t"
  shows "\<not> (j \<le> s \<and> t \<le> j + 225000)"
  using window_grid[OF assms(1,2)] assms(3,4) by linarith

text \<open>
  C4.  The claim: a row is in a window when its start is in
  \<open>[window_start, window_start + 225000)\<close>, wherever its stop is.  The filters of the
  code also bound the stop: a row is in the window starting at \<open>i\<close> when
  \<open>i \<le> start\<close> and \<open>stop \<le> i + 225000\<close>, for reads and for exons, and a pair is
  joined in that window when both rows are in it and share the chromosome.  A read or an
  exon that crosses the end of a window \<open>i\<close> of its chromosome is in no window \<open>j\<close> of
  that chromosome.
\<close>

theorem window_membership:
  "(b \<in> set (window_bam bam_with_chr i) \<longleftrightarrow>
      b \<in> set bam_with_chr \<and> i \<le> start b \<and> stop b \<le> i + 225000) \<and>
   (e \<in> set (window_exon exon_with_chr i) \<longleftrightarrow>
      e \<in> set exon_with_chr \<and> i \<le> exon_start e \<and> exon_stop e \<le> i + 225000) \<and>
   ((b, e) \<in> set (df_join (window_bam bam_with_chr i) (window_exon exon_with_chr i)) \<longleftrightarrow>
      b \<in> set bam_with_chr \<and> e \<in> set exon_with_chr \<and> exon_chr e = chr b \<and>
      i \<le> start b \<and> stop b \<le> i + 225000 \<and> i \<le> exon_start e \<and> exon_stop e \<le> i + 225000) \<and>
   (i \<in> set (chr_windows exon_with_chr) \<and> j \<in> set (chr_windows exon_with_chr) \<and>
      start b < i + 225000 \<and> i + 225000 < stop b \<longrightarrow>
      b \<notin> set (window_bam bam_with_chr j)) \<and>
   (i \<in> set (chr_windows exon_with_chr) \<and> j \<in> set (chr_windows exon_with_chr) \<and>
      exon_start e < i + 225000 \<and> i + 225000 < exon_stop e \<longrightarrow>
      e \<notin> set (window_exon exon_with_chr j))"
proof (intro conjI impI)
  show "b \<in> set (window_bam bam_with_chr i) \<longleftrightarrow>
      b \<in> set bam_with_chr \<and> i \<le> start b \<and> stop b \<le> i + 225000"
    by (auto simp: window_bam_def)
  show "e \<in> set (window_exon exon_with_chr i) \<longleftrightarrow>
      e \<in> set exon_with_chr \<and> i \<le> exon_start e \<and> exon_stop e \<le> i + 225000"
    by (auto simp: window_exon_def)
  show "(b, e) \<in> set (df_join (window_bam bam_with_chr i) (window_exon exon_with_chr i)) \<longleftrightarrow>
      b \<in> set bam_with_chr \<and> e \<in> set exon_with_chr \<and> exon_chr e = chr b \<and>
      i \<le> start b \<and> stop b \<le> i + 225000 \<and> i \<le> exon_start e \<and> exon_stop e \<le> i + 225000"
    by (auto simp: set_df_join window_bam_def window_exon_def)
next
  assume a: "i \<in> set (chr_windows exon_with_chr) \<and> j \<in> set (chr_windows exon_with_chr) \<and>
      start b < i + 225000 \<and> i + 225000 < stop b"
  then have "\<not> (j \<le> start b \<and> stop b \<le> j + 225000)"
    by (intro crossing_row[of i exon_with_chr j]) simp_all
  then show "b \<notin> set (window_bam bam_with_chr j)"
    by (auto simp: window_bam_def)
next
  assume a: "i \<in> set (chr_windows exon_with_chr) \<and> j \<in> set (chr_windows exon_with_chr) \<and>
      exon_start e < i + 225000 \<and> i + 225000 < exon_stop e"
  then have "\<not> (j \<le> exon_start e \<and> exon_stop e \<le> j + 225000)"
    by (intro crossing_row[of i exon_with_chr j]) simp_all
  then show "e \<notin> set (window_exon exon_with_chr j)"
    by (auto simp: window_exon_def)
qed

text \<open>
  Two exons make the windows at 100 and at 225100; the read from 225090 to 225120 crosses
  the end of the first and is in neither.
\<close>

theorem window_membership_witness:
  "chr_windows
     [\<lparr>exon_chr = ''chr1'', exon_start = 100, exon_stop = 200, exon_tran_id = ''tranA'',
       tran_start = 0, tran_stop = 100\<rparr>,
      \<lparr>exon_chr = ''chr1'', exon_start = 225100, exon_stop = 225200, exon_tran_id = ''tranA'',
       tran_start = 100, tran_stop = 200\<rparr>] = [100, 225100] \<and>
   \<lparr>count = 1, chr = ''chr1'', start = 225090, stop = 225120, length' = 30\<rparr>
     \<notin> set (window_bam
         [\<lparr>count = 1, chr = ''chr1'', start = 225090, stop = 225120, length' = 30\<rparr>] 100) \<and>
   \<lparr>count = 1, chr = ''chr1'', start = 225090, stop = 225120, length' = 30\<rparr>
     \<notin> set (window_bam
         [\<lparr>count = 1, chr = ''chr1'', start = 225090, stop = 225120, length' = 30\<rparr>] 225100)"
proof -
  let ?exon = "[\<lparr>exon_chr = ''chr1'', exon_start = 100, exon_stop = 200,
       exon_tran_id = ''tranA'', tran_start = 0, tran_stop = 100\<rparr>,
      \<lparr>exon_chr = ''chr1'', exon_start = 225100, exon_stop = 225200,
       exon_tran_id = ''tranA'', tran_start = 100, tran_stop = 200\<rparr>]"
  let ?b = "\<lparr>count = 1, chr = ''chr1'', start = 225090, stop = 225120, length' = 30\<rparr>"
  have w: "chr_windows ?exon = [100, 225100]"
    by (simp add: chr_windows_def py_range.simps)
  have cross: "100 \<in> set (chr_windows ?exon) \<and> 225100 \<in> set (chr_windows ?exon) \<and>
      start ?b < 100 + 225000 \<and> 100 + 225000 < stop ?b"
    by (simp add: w)
  have cross': "100 \<in> set (chr_windows ?exon) \<and> 100 \<in> set (chr_windows ?exon) \<and>
      start ?b < 100 + 225000 \<and> 100 + 225000 < stop ?b"
    by (simp add: w)
  have "?b \<notin> set (window_bam [?b] 225100)"
    by (rule window_membership[where b = ?b and bam_with_chr = "[?b]" and i = 100
          and exon_with_chr = ?exon and j = 225100,
          THEN conjunct2, THEN conjunct2, THEN conjunct2, THEN conjunct1, THEN mp, OF cross])
  moreover have "?b \<notin> set (window_bam [?b] 100)"
    by (rule window_membership[where b = ?b and bam_with_chr = "[?b]" and i = 100
          and exon_with_chr = ?exon and j = 100,
          THEN conjunct2, THEN conjunct2, THEN conjunct2, THEN conjunct1, THEN mp, OF cross'])
  ultimately show ?thesis using w by (intro conjI)
qed

text \<open>
  A read of thirty positions that starts ten before the end of the window at 0: its start
  is inside \<open>[0, 225000)\<close> and the read is not in the window.
\<close>

theorem window_membership_counterexample:
  "\<not> (\<lparr>count = 1, chr = ''chr1'', start = 224990, stop = 225020, length' = 30\<rparr>
        \<in> set (window_bam
            [\<lparr>count = 1, chr = ''chr1'', start = 224990, stop = 225020, length' = 30\<rparr>] 0)
      \<longleftrightarrow>
      0 \<le> start \<lparr>count = 1, chr = ''chr1'', start = 224990, stop = 225020, length' = 30\<rparr> \<and>
      start \<lparr>count = 1, chr = ''chr1'', start = 224990, stop = 225020, length' = 30\<rparr>
        < 0 + 225000)"
  by (simp add: window_bam_def)

text \<open>
  Outside the 64-bit range the projection wraps: a read that starts \<open>2^63 - 1\<close> after the
  start of its exon is projected to \<open>-2^63\<close> when the exon starts at 1 in the transcript.
\<close>

lemma get_bam_tran_wraps:
  "get_bam_tran
     [\<lparr>count = 1, chr = ''chr1'', start = 2 ^ 63 - 1, stop = 2 ^ 63 - 1, length' = 0\<rparr>]
     [\<lparr>exon_chr = ''chr1'', exon_start = 0, exon_stop = 2 ^ 63 - 1, exon_tran_id = ''tranA'',
       tran_start = 1, tran_stop = 0\<rparr>]
     = [\<lparr>count = 1, chr = ''chr1'', start = 2 ^ 63 - 1, stop = 2 ^ 63 - 1, length' = 0,
         tran_id = ''tranA'', tran_start_bam = - (2 ^ 63), tran_stop_bam = 0\<rparr>]"
  by (simp add: get_bam_tran_def df_join_def wrap64_def)

text \<open>
  C5.  \<^verbatim>\<open>get_bam_tran\<close> keeps a pair of a read and an exon of the same chromosome
  exactly when \<open>read.start \<ge> exon.start\<close> and \<open>read.stop \<le> exon.stop\<close>, and, when the
  projection stays in the 64-bit range, the row of a kept pair has
  \<open>tran_start_bam = exon.tran_start + (read.start - exon.start)\<close> and
  \<open>tran_stop_bam = exon.tran_stop - (exon.stop - read.stop)\<close>; the rows are those of the
  kept pairs, each once, in the order Polars gives them.  The read \<open>(chr1, 100, 130)\<close>
  against the exon \<open>(chr1, 90, 200, tranA, 0, 110)\<close> gives \<open>tran_start_bam = 10\<close>, by
  \<^verbatim>\<open>get_bam_tran\<close> and by \<^verbatim>\<open>bamtranscript\<close>, and with the CDS start 5 of \<open>tranA\<close>
  gives \<open>bamcds_start = 5\<close>.
\<close>

theorem get_bam_tran_projection:
  assumes "projection_in_range bam_df exon_df"
  shows "mset (get_bam_tran bam_df exon_df) =
     mset [\<lparr>count = count b, chr = chr b, start = start b, stop = stop b, length' = length' b,
            tran_id = exon_tran_id e,
            tran_start_bam = tran_start e + (start b - exon_start e),
            tran_stop_bam = tran_stop e - (exon_stop e - stop b)\<rparr>.
           b \<leftarrow> bam_df, e \<leftarrow> exon_df,
           exon_chr e = chr b \<and> start b \<ge> exon_start e \<and> stop b \<le> exon_stop e] \<and>
   get_bam_tran
     [\<lparr>count = 1, chr = ''chr1'', start = 100, stop = 130, length' = 30\<rparr>]
     [\<lparr>exon_chr = ''chr1'', exon_start = 90, exon_stop = 200, exon_tran_id = ''tranA'',
       tran_start = 0, tran_stop = 110\<rparr>]
     = [\<lparr>count = 1, chr = ''chr1'', start = 100, stop = 130, length' = 30,
         tran_id = ''tranA'', tran_start_bam = 10, tran_stop_bam = 40\<rparr>] \<and>
   bamtranscript
     [\<lparr>count = 1, chr = ''chr1'', start = 100, stop = 130, length' = 30\<rparr>]
     [\<lparr>exon_chr = ''chr1'', exon_start = 90, exon_stop = 200, exon_tran_id = ''tranA'',
       tran_start = 0, tran_stop = 110\<rparr>]
     = Inr [Some \<lparr>count = 1, chr = ''chr1'', start = 100, stop = 130, length' = 30,
         tran_id = ''tranA'', tran_start_bam = 10, tran_stop_bam = 40\<rparr>] \<and>
   bamrelativetocds
     [Some \<lparr>count = 1, chr = ''chr1'', start = 100, stop = 130, length' = 30,
         tran_id = ''tranA'', tran_start_bam = 10, tran_stop_bam = 40\<rparr>]
     [\<lparr>cds_tran_id = ''tranA'', cds_tran_start = 5\<rparr>]
     = Inr [\<lparr>count = 1, chr = ''chr1'', start = 100, stop = 130, length' = 30,
             tran_id = ''tranA'', bamcds_start = Some 5\<rparr>]"
proof (intro conjI)
  let ?P = "\<lambda>b e. exon_chr e = chr b \<and> start b \<ge> exon_start e \<and> stop b \<le> exon_stop e"
  let ?R = "\<lambda>b e. \<lparr>count = count b, chr = chr b, start = start b, stop = stop b,
      length' = length' b, tran_id = exon_tran_id e,
      tran_start_bam = tran_start e + (start b - exon_start e),
      tran_stop_bam = tran_stop e - (exon_stop e - stop b)\<rparr>"
  have exact: "project (b, e) = ?R b e"
    if "b \<in> set bam_df" "e \<in> set exon_df" "?P b e" for b e
  proof -
    from assms that have "int64 (start b - exon_start e)"
      "int64 (tran_start e + (start b - exon_start e))"
      "int64 (exon_stop e - stop b)"
      "int64 (tran_stop e - (exon_stop e - stop b))"
      unfolding projection_in_range_def by blast+
    then show ?thesis by (simp add: wrap64_id)
  qed
  have inner:
    "map project (filter contained (map (Pair b) (filter (\<lambda>e. exon_chr e = chr b) es))) =
       concat (map (\<lambda>e. if ?P b e then [project (b, e)] else []) es)" for b es
    by (induction es) auto
  have "mset (get_bam_tran bam_df exon_df) =
      mset (map project (filter contained
        (concat (map (\<lambda>b. map (Pair b) (filter (\<lambda>e. exon_chr e = chr b) exon_df)) bam_df))))"
    unfolding get_bam_tran_def by (simp only: mset_map mset_filter mset_df_join)
  also have "map project (filter contained
        (concat (map (\<lambda>b. map (Pair b) (filter (\<lambda>e. exon_chr e = chr b) exon_df)) bam_df))) =
      concat (map (\<lambda>b. concat (map (\<lambda>e. if ?P b e then [project (b, e)] else []) exon_df)) bam_df)"
    by (induction bam_df) (simp_all add: inner)
  also have "\<dots> = concat (map (\<lambda>b. concat (map (\<lambda>e. if ?P b e then [?R b e] else []) exon_df)) bam_df)"
  proof -
    have "(\<lambda>e. if ?P b e then [project (b, e)] else []) e = (\<lambda>e. if ?P b e then [?R b e] else []) e"
      if "b \<in> set bam_df" "e \<in> set exon_df" for b e
    proof (cases "?P b e")
      case True
      from exact[OF that True] have "project (b, e) = ?R b e" .
      with True show ?thesis by (simp only: if_True)
    next
      case False
      then show ?thesis by (simp only: if_False)
    qed
    then show ?thesis by (rule concat_map_cong2)
  qed
  finally show "mset (get_bam_tran bam_df exon_df) =
     mset [?R b e. b \<leftarrow> bam_df, e \<leftarrow> exon_df, ?P b e]"
    by simp
next
  show "get_bam_tran
     [\<lparr>count = 1, chr = ''chr1'', start = 100, stop = 130, length' = 30\<rparr>]
     [\<lparr>exon_chr = ''chr1'', exon_start = 90, exon_stop = 200, exon_tran_id = ''tranA'',
       tran_start = 0, tran_stop = 110\<rparr>]
     = [\<lparr>count = 1, chr = ''chr1'', start = 100, stop = 130, length' = 30,
         tran_id = ''tranA'', tran_start_bam = 10, tran_stop_bam = 40\<rparr>]"
    by (simp add: get_bam_tran_def df_join_def wrap64_def)
  then show "bamtranscript
     [\<lparr>count = 1, chr = ''chr1'', start = 100, stop = 130, length' = 30\<rparr>]
     [\<lparr>exon_chr = ''chr1'', exon_start = 90, exon_stop = 200, exon_tran_id = ''tranA'',
       tran_start = 0, tran_stop = 110\<rparr>]
     = Inr [Some \<lparr>count = 1, chr = ''chr1'', start = 100, stop = 130, length' = 30,
         tran_id = ''tranA'', tran_start_bam = 10, tran_stop_bam = 40\<rparr>]"
    by (simp add: bamtranscript_def shared_chr_bam_def shared_chr_exon_def chr_results_def
        chr_windows_def py_range.simps window_result_def window_bam_def window_exon_def
        explode_def)
  show "bamrelativetocds
     [Some \<lparr>count = 1, chr = ''chr1'', start = 100, stop = 130, length' = 30,
         tran_id = ''tranA'', tran_start_bam = 10, tran_stop_bam = 40\<rparr>]
     [\<lparr>cds_tran_id = ''tranA'', cds_tran_start = 5\<rparr>]
     = Inr [\<lparr>count = 1, chr = ''chr1'', start = 100, stop = 130, length' = 30,
             tran_id = ''tranA'', bamcds_start = Some 5\<rparr>]"
    by (simp add: bamrelativetocds_def shared_tran_bam_def shared_tran_cds_def non_null_def
        start_dict_of_def py_dict_def relative_row_def calculate_differences_def int64_def)
qed

text \<open>
  Two reads and one exon of \<open>chr1\<close>: the read inside the exon is projected, the read
  after it is dropped.
\<close>

theorem get_bam_tran_projection_witness:
  "projection_in_range
     [\<lparr>count = 1, chr = ''chr1'', start = 100, stop = 130, length' = 30\<rparr>,
      \<lparr>count = 2, chr = ''chr1'', start = 300, stop = 330, length' = 30\<rparr>]
     [\<lparr>exon_chr = ''chr1'', exon_start = 90, exon_stop = 200, exon_tran_id = ''tranA'',
       tran_start = 0, tran_stop = 110\<rparr>] \<and>
   mset (get_bam_tran
     [\<lparr>count = 1, chr = ''chr1'', start = 100, stop = 130, length' = 30\<rparr>,
      \<lparr>count = 2, chr = ''chr1'', start = 300, stop = 330, length' = 30\<rparr>]
     [\<lparr>exon_chr = ''chr1'', exon_start = 90, exon_stop = 200, exon_tran_id = ''tranA'',
       tran_start = 0, tran_stop = 110\<rparr>])
     = {#\<lparr>count = 1, chr = ''chr1'', start = 100, stop = 130, length' = 30,
          tran_id = ''tranA'', tran_start_bam = 10, tran_stop_bam = 40\<rparr>#}"
proof -
  let ?bam = "[\<lparr>count = 1, chr = ''chr1'', start = 100, stop = 130, length' = 30\<rparr>,
      \<lparr>count = 2, chr = ''chr1'', start = 300, stop = 330, length' = 30\<rparr>]"
  let ?exon = "[\<lparr>exon_chr = ''chr1'', exon_start = 90, exon_stop = 200,
       exon_tran_id = ''tranA'', tran_start = 0, tran_stop = 110\<rparr>]"
  have r: "projection_in_range ?bam ?exon"
    by (simp add: projection_in_range_def int64_def)
  from get_bam_tran_projection[OF r]
  have "mset (get_bam_tran ?bam ?exon) =
     mset [\<lparr>count = count b, chr = chr b, start = start b, stop = stop b, length' = length' b,
            tran_id = exon_tran_id e,
            tran_start_bam = tran_start e + (start b - exon_start e),
            tran_stop_bam = tran_stop e - (exon_stop e - stop b)\<rparr>.
           b \<leftarrow> ?bam, e \<leftarrow> ?exon,
           exon_chr e = chr b \<and> start b \<ge> exon_start e \<and> stop b \<le> exon_stop e]"
    by (rule conjunct1)
  then have "mset (get_bam_tran ?bam ?exon) =
     {#\<lparr>count = 1, chr = ''chr1'', start = 100, stop = 130, length' = 30,
          tran_id = ''tranA'', tran_start_bam = 10, tran_stop_bam = 40\<rparr>#}"
    by simp
  with r show ?thesis by (rule conjI)
qed

section \<open>The translation to CDS-relative coordinates\<close>

text \<open>
  The lookup holds, for a transcript, the start of its last CDS row; the restriction of
  the CDS table does not change the CDS rows of a transcript that a read row has.
\<close>

lemma set_non_null: "set (non_null rows) = {r. Some r \<in> set rows}"
  unfolding non_null_def by (induction rows) (auto split: option.splits)

lemma py_dict_fold_last:
  "fold (\<lambda>(k, v) m. m(k \<mapsto> v)) (zip (map f cs) (map g cs)) m0 k =
     (if filter (\<lambda>c. f c = k) cs = [] then m0 k
      else Some (g (last (filter (\<lambda>c. f c = k) cs))))"
  by (induction cs arbitrary: m0) auto

lemma start_dict_of_last:
  "start_dict_of cds_df k =
     (if filter (\<lambda>c. cds_tran_id c = k) cds_df = [] then None
      else Some (cds_tran_start (last (filter (\<lambda>c. cds_tran_id c = k) cds_df))))"
  by (simp add: start_dict_of_def py_dict_def py_dict_fold_last)

lemma shared_tran_bam_mem:
  "x \<in> set (shared_tran_bam bamdf cdsdf) \<longleftrightarrow>
     Some x \<in> set bamdf \<and> tran_id x \<in> cds_tran_id ` set cdsdf"
  by (auto simp: shared_tran_bam_def set_non_null)

lemma filter_shared_tran_cds:
  assumes "Some x \<in> set bamdf"
  shows "filter (\<lambda>c. cds_tran_id c = tran_id x) (shared_tran_cds bamdf cdsdf) =
         filter (\<lambda>c. cds_tran_id c = tran_id x) cdsdf"
proof -
  have h: "Some (tran_id x) \<in> map_option tran_id ` set bamdf"
    using assms by (rule rev_image_eqI) simp
  show ?thesis
    unfolding shared_tran_cds_def Let_def filter_filter set_remdups set_map
    by (rule filter_cong[OF refl]) (use h in auto)
qed

lemma shared_tran_lookup:
  assumes "x \<in> set (shared_tran_bam bamdf cdsdf)"
  shows "filter (\<lambda>c. cds_tran_id c = tran_id x) cdsdf \<noteq> [] \<and>
     start_dict_of (shared_tran_cds bamdf cdsdf) (tran_id x) =
       Some (cds_tran_start (last (filter (\<lambda>c. cds_tran_id c = tran_id x) cdsdf)))"
proof -
  from assms have x: "Some x \<in> set bamdf" and "tran_id x \<in> cds_tran_id ` set cdsdf"
    by (simp_all add: shared_tran_bam_mem)
  then obtain c where "c \<in> set cdsdf" "cds_tran_id c = tran_id x" by auto
  then have "c \<in> set (filter (\<lambda>c. cds_tran_id c = tran_id x) cdsdf)" by simp
  then have ne: "filter (\<lambda>c. cds_tran_id c = tran_id x) cdsdf \<noteq> []"
    by (auto simp del: set_filter)
  then show ?thesis
    by (simp add: start_dict_of_last filter_shared_tran_cds[OF x])
qed

lemma apply_rows_all:
  assumes "\<forall>x\<in>set xs. f x = Inr (g x)"
  shows "apply_rows f xs = Inr (map g xs)"
  using assms by (induction xs) simp_all

text \<open>
  C7.  After the two restrictions the read rows left are the non-null rows whose
  \<open>tran_id\<close> is a \<open>tran_id\<close> of the CDS table, and each of them has its \<open>tran_id\<close>
  among the keys of \<^verbatim>\<open>start_dict\<close>, with the \<open>tran_start\<close> of the last CDS row of that
  transcript as value.  So \<^verbatim>\<open>bamrelativetocds\<close> never raises \<^verbatim>\<open>KeyError\<close>: when a
  row is left it returns the rows left, each with
  \<open>bamcds_start = tran_start_bam - start_dict[tran_id]\<close>, the differences being 64-bit
  integers; when no row is left Polars raises \<^verbatim>\<open>ComputeError\<close>.
\<close>

theorem bamrelativetocds_lookup_total:
  assumes "difference_in_range bamdf cdsdf"
  shows "shared_tran_bam bamdf cdsdf =
       filter (\<lambda>x. tran_id x \<in> cds_tran_id ` set cdsdf) (non_null bamdf) \<and>
     (\<forall>x\<in>set (shared_tran_bam bamdf cdsdf).
        filter (\<lambda>c. cds_tran_id c = tran_id x) cdsdf \<noteq> [] \<and>
        start_dict_of (shared_tran_cds bamdf cdsdf) (tran_id x) =
          Some (cds_tran_start (last (filter (\<lambda>c. cds_tran_id c = tran_id x) cdsdf)))) \<and>
     bamrelativetocds bamdf cdsdf =
       (if shared_tran_bam bamdf cdsdf = [] then Inl ComputeError
        else Inr (map (\<lambda>x. \<lparr>count = count x, chr = chr x, start = start x, stop = stop x,
               length' = length' x, tran_id = tran_id x,
               bamcds_start = Some (tran_start_bam x
                  - cds_tran_start (last (filter (\<lambda>c. cds_tran_id c = tran_id x) cdsdf)))\<rparr>)
            (shared_tran_bam bamdf cdsdf)))"
proof (intro conjI ballI)
  show "shared_tran_bam bamdf cdsdf =
       filter (\<lambda>x. tran_id x \<in> cds_tran_id ` set cdsdf) (non_null bamdf)"
    by (simp add: shared_tran_bam_def)
next
  fix x assume x: "x \<in> set (shared_tran_bam bamdf cdsdf)"
  from shared_tran_lookup[OF x]
  show "filter (\<lambda>c. cds_tran_id c = tran_id x) cdsdf \<noteq> []" by (rule conjunct1)
  from shared_tran_lookup[OF x]
  show "start_dict_of (shared_tran_cds bamdf cdsdf) (tran_id x) =
          Some (cds_tran_start (last (filter (\<lambda>c. cds_tran_id c = tran_id x) cdsdf)))"
    by (rule conjunct2)
next
  let ?d = "start_dict_of (shared_tran_cds bamdf cdsdf)"
  let ?g = "\<lambda>x. \<lparr>count = count x, chr = chr x, start = start x, stop = stop x,
               length' = length' x, tran_id = tran_id x,
               bamcds_start = Some (tran_start_bam x
                  - cds_tran_start (last (filter (\<lambda>c. cds_tran_id c = tran_id x) cdsdf)))\<rparr>"
  have "relative_row ?d x = Inr (?g x)" if x: "x \<in> set (shared_tran_bam bamdf cdsdf)" for x
  proof -
    let ?c = "last (filter (\<lambda>c. cds_tran_id c = tran_id x) cdsdf)"
    from shared_tran_lookup[OF x]
    have ne: "filter (\<lambda>c. cds_tran_id c = tran_id x) cdsdf \<noteq> []"
      and look: "?d (tran_id x) = Some (cds_tran_start ?c)" by simp_all
    from ne have "?c \<in> set (filter (\<lambda>c. cds_tran_id c = tran_id x) cdsdf)"
      by (rule last_in_set)
    then have c: "?c \<in> set cdsdf" "cds_tran_id ?c = tran_id x" by simp_all
    from x have "x \<in> set (non_null bamdf)"
      by (simp add: shared_tran_bam_mem set_non_null)
    with assms c have "int64 (tran_start_bam x - cds_tran_start ?c)"
      unfolding difference_in_range_def by blast
    with look show ?thesis
      by (simp add: relative_row_def calculate_differences_def)
  qed
  then have "apply_rows (relative_row ?d) (shared_tran_bam bamdf cdsdf) =
      Inr (map ?g (shared_tran_bam bamdf cdsdf))"
    by (intro apply_rows_all ballI)
  then show "bamrelativetocds bamdf cdsdf =
       (if shared_tran_bam bamdf cdsdf = [] then Inl ComputeError
        else Inr (map ?g (shared_tran_bam bamdf cdsdf)))"
    by (simp add: bamrelativetocds_def Let_def)
qed

text \<open>
  Two read rows, a row of nulls and two CDS rows that share one transcript: the row of
  \<open>tranA\<close> remains and is shifted by its CDS start.
\<close>

theorem bamrelativetocds_lookup_total_witness:
  "difference_in_range
     [Some \<lparr>count = 2, chr = ''chr1'', start = 100, stop = 130, length' = 30,
       tran_id = ''tranA'', tran_start_bam = 10, tran_stop_bam = 40\<rparr>,
      None,
      Some \<lparr>count = 1, chr = ''chr2'', start = 500, stop = 528, length' = 28,
       tran_id = ''tranB'', tran_start_bam = 70, tran_stop_bam = 98\<rparr>]
     [\<lparr>cds_tran_id = ''tranA'', cds_tran_start = 5\<rparr>,
      \<lparr>cds_tran_id = ''tranC'', cds_tran_start = 9\<rparr>] \<and>
   bamrelativetocds
     [Some \<lparr>count = 2, chr = ''chr1'', start = 100, stop = 130, length' = 30,
       tran_id = ''tranA'', tran_start_bam = 10, tran_stop_bam = 40\<rparr>,
      None,
      Some \<lparr>count = 1, chr = ''chr2'', start = 500, stop = 528, length' = 28,
       tran_id = ''tranB'', tran_start_bam = 70, tran_stop_bam = 98\<rparr>]
     [\<lparr>cds_tran_id = ''tranA'', cds_tran_start = 5\<rparr>,
      \<lparr>cds_tran_id = ''tranC'', cds_tran_start = 9\<rparr>]
     = Inr [\<lparr>count = 2, chr = ''chr1'', start = 100, stop = 130, length' = 30,
             tran_id = ''tranA'', bamcds_start = Some 5\<rparr>]"
proof -
  let ?bam = "[Some \<lparr>count = 2, chr = ''chr1'', start = 100, stop = 130, length' = 30,
       tran_id = ''tranA'', tran_start_bam = 10, tran_stop_bam = 40\<rparr>,
      None,
      Some \<lparr>count = 1, chr = ''chr2'', start = 500, stop = 528, length' = 28,
       tran_id = ''tranB'', tran_start_bam = 70, tran_stop_bam = 98\<rparr>]"
  let ?cds = "[\<lparr>cds_tran_id = ''tranA'', cds_tran_start = 5\<rparr>,
      \<lparr>cds_tran_id = ''tranC'', cds_tran_start = 9\<rparr>]"
  have r: "difference_in_range ?bam ?cds"
    by (simp add: difference_in_range_def non_null_def int64_def)
  have s: "shared_tran_bam ?bam ?cds =
      [\<lparr>count = 2, chr = ''chr1'', start = 100, stop = 130, length' = 30,
        tran_id = ''tranA'', tran_start_bam = 10, tran_stop_bam = 40\<rparr>]"
    by (simp add: shared_tran_bam_def non_null_def)
  from bamrelativetocds_lookup_total[OF r, THEN conjunct2, THEN conjunct2]
  have "bamrelativetocds ?bam ?cds =
     Inr [\<lparr>count = 2, chr = ''chr1'', start = 100, stop = 130, length' = 30,
             tran_id = ''tranA'', bamcds_start = Some 5\<rparr>]"
    by (simp add: s)
  with r show ?thesis by (rule conjI)
qed

text \<open>
  C9.  The claim: an output row of \<^verbatim>\<open>bamrelativetocds\<close> has the four fields
  \<open>cds_relative_start, length, count, chromosome\<close> and no other.  The \<^verbatim>\<open>select\<close> of
  the code drops \<^verbatim>\<open>tran_start_bam\<close> and \<^verbatim>\<open>tran_stop_bam\<close> only: the output has every
  other column of the input and \<^verbatim>\<open>bamcds_start\<close>, so on the table of
  \<^verbatim>\<open>bamtranscript\<close> it has \<^verbatim>\<open>count, chr, start, stop, length, tran_id, bamcds_start\<close>,
  the fields of the record \<open>bam_cds_row\<close>.  \<^verbatim>\<open>asitecalc\<close> reads \<^verbatim>\<open>start\<close> from it.
\<close>

theorem bamrelativetocds_columns_kept:
  "set (bamrelativetocds_columns cols) =
     (set cols \<union> {''bamcds_start''}) - {''tran_start_bam'', ''tran_stop_bam''} \<and>
   bamrelativetocds_columns bamtranscript_columns =
     [''count'', ''chr'', ''start'', ''stop'', ''length'', ''tran_id'', ''bamcds_start'']"
proof
  show "set (bamrelativetocds_columns cols) =
     (set cols \<union> {''bamcds_start''}) - {''tran_start_bam'', ''tran_stop_bam''}"
    by (auto simp: bamrelativetocds_columns_def exclude_def with_column_def)
  show "bamrelativetocds_columns bamtranscript_columns =
     [''count'', ''chr'', ''start'', ''stop'', ''length'', ''tran_id'', ''bamcds_start'']"
    by (simp add: bamrelativetocds_columns_def exclude_def with_column_def
        bamtranscript_columns_def)
qed

theorem bamrelativetocds_columns_counterexample:
  "\<not> set (bamrelativetocds_columns bamtranscript_columns) =
       {''bamcds_start'', ''length'', ''count'', ''chr''}"
proof
  assume eq: "set (bamrelativetocds_columns bamtranscript_columns) =
       {''bamcds_start'', ''length'', ''count'', ''chr''}"
  have "''start'' \<in> set (bamrelativetocds_columns bamtranscript_columns)"
    by (simp add: bamrelativetocds_columns_def exclude_def with_column_def
        bamtranscript_columns_def)
  then have "''start'' \<in> {''bamcds_start'', ''length'', ''count'', ''chr''}"
    by (simp only: eq)
  then show False by simp
qed

section \<open>The aggregation to A-sites\<close>

text \<open>Grouping a list by the values of a key only permutes it.\<close>

lemma mset_filter_disjoint:
  "v \<notin> set vs \<Longrightarrow>
     mset (filter (\<lambda>r. g r = v) xs) + mset (filter (\<lambda>r. g r \<in> set vs) xs) =
     mset (filter (\<lambda>r. g r \<in> set (v # vs)) xs)"
  by (induction xs) auto

lemma mset_groups_aux:
  "distinct vs \<Longrightarrow>
     mset (concat (map (\<lambda>v. filter (\<lambda>r. g r = v) xs) vs)) = mset (filter (\<lambda>r. g r \<in> set vs) xs)"
proof (induction vs)
  case Nil
  then show ?case by simp
next
  case (Cons v vs)
  then have "mset (concat (map (\<lambda>v. filter (\<lambda>r. g r = v) xs) (v # vs))) =
      mset (filter (\<lambda>r. g r = v) xs) + mset (filter (\<lambda>r. g r \<in> set vs) xs)"
    by simp
  also have "\<dots> = mset (filter (\<lambda>r. g r \<in> set (v # vs)) xs)"
    using Cons.prems by (intro mset_filter_disjoint) simp
  finally show ?case .
qed

lemma mset_groups:
  "mset (concat (map (\<lambda>v. filter (\<lambda>r. g r = v) xs) (remdups (map g xs)))) = mset xs"
proof -
  have "filter (\<lambda>r. g r \<in> set (remdups (map g xs))) xs = xs"
    by (induction xs) auto
  then show ?thesis
    using mset_groups_aux[of "remdups (map g xs)" g xs] by simp
qed

lemma mset_by_length: "mset (by_length df) = mset df"
  unfolding by_length_def by (rule mset_groups)

text \<open>
  When every length has an offset the first loop never raises, and \<^verbatim>\<open>asitecalc\<close> is the
  sorted table of the group sums of the shifted rows.
\<close>

lemma length_group_shifted:
  "offsets v = Some off \<Longrightarrow>
     length_group df offsets v = Inr (map (shifted offsets) (filter (\<lambda>r. length' r = v) df))"
  by (simp add: length_group_def shifted_def)

lemma group_loop_total:
  assumes "\<forall>v\<in>set vs. v \<in> dom offsets"
  shows "group_loop df offsets vs y =
     Inr (y @ map (\<lambda>v. map (shifted offsets) (filter (\<lambda>r. length' r = v) df)) vs)"
  using assms
proof (induction vs arbitrary: y)
  case Nil
  then show ?case by simp
next
  case (Cons v vs)
  then obtain off where "offsets v = Some off" by auto
  then have "length_group df offsets v = Inr (map (shifted offsets) (filter (\<lambda>r. length' r = v) df))"
    by (rule length_group_shifted)
  with Cons show ?case by simp
qed

lemma asitecalc_eq:
  assumes "\<forall>r\<in>set df. length' r \<in> dom offsets" and "df \<noteq> []"
  shows "asitecalc df offsets =
     Inr (sort_key bed_key (map to_bed (group_sum (map (shifted offsets) (by_length df)))))"
proof -
  have "\<forall>v\<in>set (remdups (map length' df)). v \<in> dom offsets"
    using assms(1) by auto
  then have loop: "group_loop df offsets (remdups (map length' df)) [] =
     Inr (map (\<lambda>v. map (shifted offsets) (filter (\<lambda>r. length' r = v) df)) (remdups (map length' df)))"
    by (simp add: group_loop_total)
  have ne: "remdups (map length' df) \<noteq> []"
    using assms(2) by (cases df) auto
  have "concat (map (\<lambda>v. map (shifted offsets) (filter (\<lambda>r. length' r = v) df)) (remdups (map length' df)))
      = map (shifted offsets) (by_length df)"
    by (simp add: by_length_def map_concat comp_def)
  with loop ne show ?thesis
    by (simp add: asitecalc_def)
qed

lemma asitecalc_empty: "asitecalc [] offsets = Inl NoDataError"
  by (simp add: asitecalc_def)

text \<open>Sums over a list depend on its elements only, not on their order.\<close>

lemma sum_list_mset_cong:
  fixes f :: "'a \<Rightarrow> int"
  assumes "mset xs = mset ys"
  shows "sum_list (map f xs) = sum_list (map f ys)"
proof -
  from assms have "mset (map f xs) = mset (map f ys)"
    by (simp only: mset_map)
  then have "sum_mset (mset (map f xs)) = sum_mset (mset (map f ys))"
    by (rule arg_cong)
  then show ?thesis
    by (simp only: sum_mset_sum_list)
qed

lemma sum_filter_mset_cong:
  fixes f :: "'a \<Rightarrow> int"
  assumes "mset xs = mset ys"
  shows "sum_list (map f (filter P xs)) = sum_list (map f (filter P ys))"
proof -
  from assms have "mset (filter P xs) = mset (filter P ys)" by (simp only: mset_filter)
  then show ?thesis by (rule sum_list_mset_cong)
qed

lemma sum_list_map_concat:
  "sum_list (map h (concat xss)) = sum_list (map (\<lambda>xs. sum_list (map h xs)) xss)"
  by (induction xss) auto

text \<open>The groups: their keys, their sums and their order in the sorted table.\<close>

lemma bed_key_to_bed: "bed_key (to_bed (k, n)) = k"
  by (cases k) (simp add: bed_key_def to_bed_def)

lemma map_bed_key_group_sum: "map (bed_key \<circ> to_bed) (group_sum rows) = remdups (map asite_key rows)"
  by (simp add: group_sum_def comp_def bed_key_to_bed)

lemma sum_group_sum:
  assumes "\<forall>k\<in>set (map asite_key rows).
      int64 (sum_list (map asite_count (filter (\<lambda>r. asite_key r = k) rows)))"
  shows "sum_list (map (bed_count \<circ> to_bed) (group_sum rows)) = sum_list (map asite_count rows)"
proof -
  have "bed_count (to_bed (k, n)) = n" for k n
    by (cases k) (simp add: to_bed_def)
  then have "sum_list (map (bed_count \<circ> to_bed) (group_sum rows)) =
     sum_list (map (\<lambda>k. wrap64 (sum_list (map asite_count (filter (\<lambda>r. asite_key r = k) rows))))
        (remdups (map asite_key rows)))"
    by (simp add: group_sum_def comp_def)
  also have "map (\<lambda>k. wrap64 (sum_list (map asite_count (filter (\<lambda>r. asite_key r = k) rows))))
        (remdups (map asite_key rows)) =
      map (\<lambda>k. sum_list (map asite_count (filter (\<lambda>r. asite_key r = k) rows)))
        (remdups (map asite_key rows))"
    using assms by (intro map_cong refl wrap64_id) auto
  also have "sum_list (map (\<lambda>k. sum_list (map asite_count (filter (\<lambda>r. asite_key r = k) rows)))
        (remdups (map asite_key rows))) = sum_list (map asite_count
      (concat (map (\<lambda>k. filter (\<lambda>r. asite_key r = k) rows) (remdups (map asite_key rows)))))"
    by (simp add: sum_list_map_concat comp_def)
  also have "\<dots> = sum_mset (image_mset asite_count (mset
      (concat (map (\<lambda>k. filter (\<lambda>r. asite_key r = k) rows) (remdups (map asite_key rows))))))"
    by (simp only: mset_map[symmetric] sum_mset_sum_list)
  also have "\<dots> = sum_mset (image_mset asite_count (mset rows))"
    by (simp only: mset_groups)
  also have "\<dots> = sum_list (map asite_count rows)"
    by (simp only: mset_map[symmetric] sum_mset_sum_list)
  finally show ?thesis .
qed

lemma sum_bed_count:
  assumes "\<forall>k\<in>set (map asite_key rows).
      int64 (sum_list (map asite_count (filter (\<lambda>r. asite_key r = k) rows)))"
  shows "sum_list (map bed_count (sort_key bed_key (map to_bed (group_sum rows)))) =
     sum_list (map asite_count rows)"
proof -
  have "mset (sort_key bed_key (map to_bed (group_sum rows))) = mset (map to_bed (group_sum rows))"
    by (rule mset_sort)
  then have "sum_list (map bed_count (sort_key bed_key (map to_bed (group_sum rows)))) =
      sum_list (map bed_count (map to_bed (group_sum rows)))"
    by (rule sum_list_mset_cong)
  also have "\<dots> = sum_list (map (bed_count \<circ> to_bed) (group_sum rows))"
    by (simp only: map_map)
  also have "\<dots> = sum_list (map asite_count rows)"
    using assms by (rule sum_group_sum)
  finally show ?thesis .
qed

lemma sum_shifted:
  "sum_list (map asite_count (map (shifted offsets) (by_length df))) = sum_list (map count df)"
proof -
  have "map asite_count (map (shifted offsets) xs) = map count xs" for xs
    by (induction xs) (simp_all add: shifted_def)
  then have "sum_list (map asite_count (map (shifted offsets) (by_length df))) =
      sum_list (map count (by_length df))"
    by (simp only:)
  also have "\<dots> = sum_list (map count df)"
    using mset_by_length by (rule sum_list_mset_cong)
  finally show ?thesis .
qed

lemma bed_sorted:
  "sorted_wrt (<) (map bed_key (sort_key bed_key (map to_bed (group_sum rows))))"
proof -
  let ?groups = "map to_bed (group_sum rows)"
  have keys: "map bed_key ?groups = remdups (map asite_key rows)"
    using map_bed_key_group_sum[of rows] by (simp only: map_map)
  have srt: "sorted (map bed_key (sort_key bed_key ?groups))"
    by (rule sorted_sort_key)
  have "mset (map bed_key (sort_key bed_key ?groups)) = mset (map bed_key ?groups)"
    by (simp only: mset_map mset_sort)
  then have "distinct (map bed_key (sort_key bed_key ?groups)) \<longleftrightarrow> distinct (map bed_key ?groups)"
    by (rule mset_eq_imp_distinct_iff)
  moreover have "distinct (map bed_key ?groups)"
    by (simp only: keys distinct_remdups)
  ultimately have "distinct (map bed_key (sort_key bed_key ?groups))"
    by (rule iffD2)
  with srt show ?thesis
    by (simp only: strict_sorted_iff)
qed

lemma bed_keys:
  "set (map bed_key (sort_key bed_key (map to_bed (group_sum rows)))) = asite_key ` set rows"
proof -
  have "map bed_key (map to_bed (group_sum rows)) = remdups (map asite_key rows)"
    using map_bed_key_group_sum[of rows] by (simp only: map_map)
  then have "set (map bed_key (map to_bed (group_sum rows))) = asite_key ` set rows"
    by (simp only: set_remdups set_map)
  then show ?thesis by (simp only: set_map set_sort)
qed

lemma group_sum_mem:
  assumes "g \<in> set (group_sum rows)"
  shows "g = (fst g, wrap64 (sum_list (map asite_count (filter (\<lambda>r. asite_key r = fst g) rows))))"
  using assms unfolding group_sum_def by auto

lemma bed_each:
  assumes "b \<in> set (sort_key bed_key (map to_bed (group_sum rows)))"
  shows "bed_key b \<in> asite_key ` set rows \<and>
     bed_stop b = wrap64 (bed_a_site b + 1) \<and>
     bed_count b =
       wrap64 (sum_list (map asite_count (filter (\<lambda>r. asite_key r = bed_key b) rows)))"
proof -
  from assms have "b \<in> set (map to_bed (group_sum rows))" by (simp only: set_sort)
  then obtain g where g: "g \<in> set (group_sum rows)" and b: "b = to_bed g"
    by auto
  from g have k: "fst g \<in> asite_key ` set rows"
    by (auto simp: group_sum_def)
  obtain c a where ca: "fst g = (c, a)" by (cases "fst g")
  from group_sum_mem[OF g] ca
  have "g = ((c, a), wrap64 (sum_list (map asite_count (filter (\<lambda>r. asite_key r = (c, a)) rows))))"
    by simp
  then have "b = to_bed ((c, a),
      wrap64 (sum_list (map asite_count (filter (\<lambda>r. asite_key r = (c, a)) rows))))"
    using b by simp
  with k ca show ?thesis
    by (simp add: to_bed_def bed_key_def)
qed

text \<open>Inside the 64-bit range the wrapped key of a row is its key.\<close>

lemma asite_key_shifted:
  assumes "asite_in_range offsets df" and "r \<in> set df"
  shows "asite_key (shifted offsets r) = a_site_key offsets r"
proof -
  from assms have "int64 (start r + the (offsets (length' r)))"
    unfolding asite_in_range_def by blast
  then show ?thesis
    by (simp add: asite_key_def shifted_def a_site_key_def wrap64_id)
qed

lemma filter_shifted:
  "map asite_count (filter (\<lambda>r. asite_key r = k) (map (shifted offsets) xs)) =
     map count (filter (\<lambda>r. asite_key (shifted offsets r) = k) xs)"
  by (induction xs) (simp_all add: shifted_def)

lemma sum_key_shifted:
  assumes "asite_in_range offsets df"
  shows "sum_list (map asite_count
           (filter (\<lambda>r. asite_key r = k) (map (shifted offsets) (by_length df)))) =
         sum_list (map count (filter (\<lambda>r. a_site_key offsets r = k) df))"
proof -
  have "sum_list (map asite_count
          (filter (\<lambda>r. asite_key r = k) (map (shifted offsets) (by_length df)))) =
     sum_list (map count (filter (\<lambda>r. asite_key (shifted offsets r) = k) (by_length df)))"
    by (simp only: filter_shifted)
  also have "\<dots> = sum_list (map count (filter (\<lambda>r. asite_key (shifted offsets r) = k) df))"
    using mset_by_length by (rule sum_filter_mset_cong)
  also have "filter (\<lambda>r. asite_key (shifted offsets r) = k) df =
      filter (\<lambda>r. a_site_key offsets r = k) df"
    by (rule filter_cong[OF refl]) (simp add: asite_key_shifted[OF assms])
  finally show ?thesis .
qed

lemma keys_shifted:
  assumes "asite_in_range offsets df"
  shows "asite_key ` set (map (shifted offsets) (by_length df)) = a_site_key offsets ` set df"
proof -
  have "set (by_length df) = set df"
    using mset_by_length by (rule mset_eq_setD)
  then have "asite_key ` set (map (shifted offsets) (by_length df)) =
      (\<lambda>r. asite_key (shifted offsets r)) ` set df"
    by (simp add: image_image)
  also have "\<dots> = a_site_key offsets ` set df"
    by (rule image_cong[OF refl]) (rule asite_key_shifted[OF assms])
  finally show ?thesis .
qed

text \<open>Inside the 64-bit range no sum of a group wraps.\<close>

lemma group_sums_in_range:
  assumes "asite_in_range offsets df"
  shows "\<forall>k\<in>set (map asite_key (map (shifted offsets) (by_length df))).
      int64 (sum_list (map asite_count
        (filter (\<lambda>r. asite_key r = k) (map (shifted offsets) (by_length df)))))"
proof
  fix k assume "k \<in> set (map asite_key (map (shifted offsets) (by_length df)))"
  then have "k \<in> asite_key ` set (map (shifted offsets) (by_length df))"
    by (simp only: set_map[of asite_key "map (shifted offsets) (by_length df)"])
  then have "k \<in> a_site_key offsets ` set df" by (simp only: keys_shifted[OF assms])
  then obtain r where r: "r \<in> set df" and k: "k = a_site_key offsets r" by blast
  from assms r have "int64 (sum_list (map count
      (filter (\<lambda>r'. a_site_key offsets r' = a_site_key offsets r) df)))"
    unfolding asite_in_range_def by blast
  then show "int64 (sum_list (map asite_count
        (filter (\<lambda>r. asite_key r = k) (map (shifted offsets) (by_length df)))))"
    by (simp only: sum_key_shifted[OF assms] k)
qed

lemma bed_each_exact:
  assumes range: "asite_in_range offsets df"
    and b: "b \<in> set (sort_key bed_key
          (map to_bed (group_sum (map (shifted offsets) (by_length df)))))"
  shows "bed_stop b = bed_a_site b + 1 \<and>
     bed_count b = sum_list (map count (filter (\<lambda>r. a_site_key offsets r = bed_key b) df))"
proof -
  let ?rows = "map (shifted offsets) (by_length df)"
  from bed_each[OF b] have key: "bed_key b \<in> asite_key ` set ?rows"
    and stop: "bed_stop b = wrap64 (bed_a_site b + 1)"
    and cnt: "bed_count b =
       wrap64 (sum_list (map asite_count (filter (\<lambda>r. asite_key r = bed_key b) ?rows)))"
    by simp_all
  from key have "bed_key b \<in> a_site_key offsets ` set df"
    by (simp only: keys_shifted[OF range])
  then obtain r where r: "r \<in> set df" and k: "bed_key b = a_site_key offsets r" by blast
  from k have "bed_a_site b = start r + the (offsets (length' r))"
    by (simp add: bed_key_def a_site_key_def)
  moreover from range r have "int64 (start r + the (offsets (length' r)) + 1)"
    unfolding asite_in_range_def by blast
  ultimately have "wrap64 (bed_a_site b + 1) = bed_a_site b + 1"
    by (simp add: wrap64_id)
  with stop have s: "bed_stop b = bed_a_site b + 1" by simp
  from key have "bed_key b \<in> set (map asite_key ?rows)"
    by (simp only: set_map[of asite_key ?rows])
  with group_sums_in_range[OF range]
  have "int64 (sum_list (map asite_count (filter (\<lambda>r. asite_key r = bed_key b) ?rows)))"
    by (rule bspec)
  then have "wrap64 (sum_list (map asite_count (filter (\<lambda>r. asite_key r = bed_key b) ?rows))) =
      sum_list (map asite_count (filter (\<lambda>r. asite_key r = bed_key b) ?rows))"
    by (rule wrap64_id)
  with cnt have "bed_count b =
      sum_list (map count (filter (\<lambda>r. a_site_key offsets r = bed_key b) df))"
    by (simp only: sum_key_shifted[OF range])
  with s show ?thesis by (rule conjI)
qed

text \<open>
  Outside the 64-bit range the sum wraps: two reads with the count \<open>2^62\<close> on one A-site
  give the count \<open>-2^63\<close>.
\<close>

lemma asitecalc_wraps:
  "asitecalc
     [\<lparr>count = 2 ^ 62, chr = ''chr1'', start = 100, stop = 128, length' = 28,
       tran_id = ''tranA'', bamcds_start = Some 5\<rparr>,
      \<lparr>count = 2 ^ 62, chr = ''chr1'', start = 100, stop = 128, length' = 28,
       tran_id = ''tranA'', bamcds_start = Some 5\<rparr>]
     [28 \<mapsto> 12]
     = Inr [\<lparr>bed_chr = ''chr1'', bed_a_site = 112, bed_stop = 113, bed_count = - (2 ^ 63)\<rparr>]"
  by (simp add: asitecalc_def length_group_def group_sum_def asite_key_def to_bed_def
      wrap64_def)

text \<open>
  C6.  For a table whose lengths all have an offset and whose A-sites and group sums stay
  in the 64-bit range, \<^verbatim>\<open>asitecalc\<close> returns a table whose keys \<open>(chr, A-site)\<close> are
  strictly ascending (chromosomes as strings, positions as integers), so no key occurs
  twice; the keys are exactly the keys of the shifted input rows; each row has
  \<open>stop = A-site + 1\<close> and as count the sum of the counts of the input rows with its key.
  The empty table is the one input on which there is no output: \<^verbatim>\<open>pl.from_dicts\<close>
  raises on the empty list of groups.
\<close>

theorem asitecalc_groups_sorted:
  assumes "\<forall>r\<in>set df. length' r \<in> dom offsets" and "asite_in_range offsets df"
  shows "(df \<noteq> [] \<longrightarrow>
      (\<exists>bed. asitecalc df offsets = Inr bed \<and>
         sorted_wrt (<) (map bed_key bed) \<and>
         set (map bed_key bed) = a_site_key offsets ` set df \<and>
         (\<forall>b\<in>set bed.
            bed_stop b = bed_a_site b + 1 \<and>
            bed_count b =
              sum_list (map count (filter (\<lambda>r. a_site_key offsets r = bed_key b) df))))) \<and>
     (df = [] \<longrightarrow> asitecalc df offsets = Inl NoDataError)"
proof (intro conjI impI)
  assume ne: "df \<noteq> []"
  let ?rows = "map (shifted offsets) (by_length df)"
  let ?bed = "sort_key bed_key (map to_bed (group_sum ?rows))"
  show "\<exists>bed. asitecalc df offsets = Inr bed \<and>
         sorted_wrt (<) (map bed_key bed) \<and>
         set (map bed_key bed) = a_site_key offsets ` set df \<and>
         (\<forall>b\<in>set bed.
            bed_stop b = bed_a_site b + 1 \<and>
            bed_count b =
              sum_list (map count (filter (\<lambda>r. a_site_key offsets r = bed_key b) df)))"
  proof (intro exI conjI ballI)
    show "asitecalc df offsets = Inr ?bed"
      using assms(1) ne by (rule asitecalc_eq)
    show "sorted_wrt (<) (map bed_key ?bed)"
      by (rule bed_sorted)
    show "set (map bed_key ?bed) = a_site_key offsets ` set df"
      by (simp only: bed_keys keys_shifted[OF assms(2)])
    fix b assume b: "b \<in> set ?bed"
    from bed_each_exact[OF assms(2) b] show "bed_stop b = bed_a_site b + 1" by (rule conjunct1)
    from bed_each_exact[OF assms(2) b] show "bed_count b =
        sum_list (map count (filter (\<lambda>r. a_site_key offsets r = bed_key b) df))"
      by (rule conjunct2)
  qed
next
  assume "df = []"
  then show "asitecalc df offsets = Inl NoDataError" by (simp only: asitecalc_empty)
qed

text \<open>
  Two reads of lengths 28 and 30 that land on the same A-site 112 of \<open>chr1\<close> with counts
  3 and 4: one row, with count 7.
\<close>

theorem asitecalc_groups_sorted_witness:
  "asite_in_range [28 \<mapsto> 12, 30 \<mapsto> 14]
     [\<lparr>count = 3, chr = ''chr1'', start = 100, stop = 128, length' = 28,
       tran_id = ''tranA'', bamcds_start = Some 5\<rparr>,
      \<lparr>count = 4, chr = ''chr1'', start = 98, stop = 128, length' = 30,
       tran_id = ''tranA'', bamcds_start = Some 3\<rparr>] \<and>
   asitecalc
     [\<lparr>count = 3, chr = ''chr1'', start = 100, stop = 128, length' = 28,
       tran_id = ''tranA'', bamcds_start = Some 5\<rparr>,
      \<lparr>count = 4, chr = ''chr1'', start = 98, stop = 128, length' = 30,
       tran_id = ''tranA'', bamcds_start = Some 3\<rparr>]
     [28 \<mapsto> 12, 30 \<mapsto> 14]
     = Inr [\<lparr>bed_chr = ''chr1'', bed_a_site = 112, bed_stop = 113, bed_count = 7\<rparr>] \<and>
   set (map bed_key [\<lparr>bed_chr = ''chr1'', bed_a_site = 112, bed_stop = 113, bed_count = 7\<rparr>])
     = a_site_key [28 \<mapsto> 12, 30 \<mapsto> 14] `
       set [\<lparr>count = 3, chr = ''chr1'', start = 100, stop = 128, length' = 28,
              tran_id = ''tranA'', bamcds_start = Some 5\<rparr>,
            \<lparr>count = 4, chr = ''chr1'', start = 98, stop = 128, length' = 30,
              tran_id = ''tranA'', bamcds_start = Some 3\<rparr>]"
proof -
  let ?df = "[\<lparr>count = 3, chr = ''chr1'', start = 100, stop = 128, length' = 28,
       tran_id = ''tranA'', bamcds_start = Some 5\<rparr>,
      \<lparr>count = 4, chr = ''chr1'', start = 98, stop = 128, length' = 30,
       tran_id = ''tranA'', bamcds_start = Some 3\<rparr>]"
  let ?offsets = "[28 \<mapsto> 12, 30 \<mapsto> (14::int)] :: int \<rightharpoonup> int"
  let ?bed = "[\<lparr>bed_chr = ''chr1'', bed_a_site = 112, bed_stop = 113, bed_count = 7\<rparr>]"
  have pre: "\<forall>r\<in>set ?df. length' r \<in> dom ?offsets" by simp
  have range: "asite_in_range ?offsets ?df"
    by (simp add: asite_in_range_def a_site_key_def int64_def)
  have ne: "?df \<noteq> []" by simp
  have ev: "asitecalc ?df ?offsets = Inr ?bed"
    by (simp add: asitecalc_def length_group_def group_sum_def asite_key_def to_bed_def
        wrap64_def)
  from asitecalc_groups_sorted[OF pre range] ne
  have "\<exists>bed. asitecalc ?df ?offsets = Inr bed \<and>
         sorted_wrt (<) (map bed_key bed) \<and>
         set (map bed_key bed) = a_site_key ?offsets ` set ?df \<and>
         (\<forall>b\<in>set bed.
            bed_stop b = bed_a_site b + 1 \<and>
            bed_count b =
              sum_list (map count (filter (\<lambda>r. a_site_key ?offsets r = bed_key b) ?df)))"
    by (simp only: simp_thms)
  then obtain bed where bed: "asitecalc ?df ?offsets = Inr bed"
    and keys: "set (map bed_key bed) = a_site_key ?offsets ` set ?df"
    by (elim exE conjE)
  from bed ev have "bed = ?bed" by (simp only: sum.inject)
  with keys have "set (map bed_key ?bed) = a_site_key ?offsets ` set ?df" by (simp only:)
  with range ev show ?thesis by (intro conjI)
qed

text \<open>
  C8.  For a table whose lengths all have an offset and whose A-sites and group sums stay
  in the 64-bit range, the counts of the rows \<^verbatim>\<open>asitecalc\<close> returns add up to the counts
  of the input rows.  On the empty table it raises and returns no row.
\<close>

theorem asitecalc_conserves_counts:
  assumes "\<forall>r\<in>set df. length' r \<in> dom offsets" and "asite_in_range offsets df"
  shows "(df \<noteq> [] \<longrightarrow>
      (\<exists>bed. asitecalc df offsets = Inr bed \<and>
         sum_list (map bed_count bed) = sum_list (map count df))) \<and>
     (df = [] \<longrightarrow> asitecalc df offsets = Inl NoDataError)"
proof (intro conjI impI)
  assume ne: "df \<noteq> []"
  have "sum_list (map bed_count
          (sort_key bed_key (map to_bed (group_sum (map (shifted offsets) (by_length df)))))) =
        sum_list (map asite_count (map (shifted offsets) (by_length df)))"
    using group_sums_in_range[OF assms(2)] by (rule sum_bed_count)
  then have "sum_list (map bed_count
          (sort_key bed_key (map to_bed (group_sum (map (shifted offsets) (by_length df)))))) =
        sum_list (map count df)"
    by (simp only: sum_shifted)
  with asitecalc_eq[OF assms(1) ne]
  show "\<exists>bed. asitecalc df offsets = Inr bed \<and>
          sum_list (map bed_count bed) = sum_list (map count df)"
    by (intro exI conjI)
next
  assume "df = []"
  then show "asitecalc df offsets = Inl NoDataError" by (simp only: asitecalc_empty)
qed

text \<open>
  Three reads with the counts 2, 3 and 4 on two chromosomes: two rows, sorted, with the
  counts 7 and 2.
\<close>

theorem asitecalc_conserves_counts_witness:
  "asite_in_range [28 \<mapsto> 12, 30 \<mapsto> 14]
     [\<lparr>count = 2, chr = ''chr2'', start = 40, stop = 68, length' = 28,
       tran_id = ''tranB'', bamcds_start = Some 1\<rparr>,
      \<lparr>count = 3, chr = ''chr1'', start = 100, stop = 128, length' = 28,
       tran_id = ''tranA'', bamcds_start = Some 5\<rparr>,
      \<lparr>count = 4, chr = ''chr1'', start = 98, stop = 128, length' = 30,
       tran_id = ''tranA'', bamcds_start = Some 3\<rparr>] \<and>
   asitecalc
     [\<lparr>count = 2, chr = ''chr2'', start = 40, stop = 68, length' = 28,
       tran_id = ''tranB'', bamcds_start = Some 1\<rparr>,
      \<lparr>count = 3, chr = ''chr1'', start = 100, stop = 128, length' = 28,
       tran_id = ''tranA'', bamcds_start = Some 5\<rparr>,
      \<lparr>count = 4, chr = ''chr1'', start = 98, stop = 128, length' = 30,
       tran_id = ''tranA'', bamcds_start = Some 3\<rparr>]
     [28 \<mapsto> 12, 30 \<mapsto> 14]
     = Inr [\<lparr>bed_chr = ''chr1'', bed_a_site = 112, bed_stop = 113, bed_count = 7\<rparr>,
            \<lparr>bed_chr = ''chr2'', bed_a_site = 52, bed_stop = 53, bed_count = 2\<rparr>] \<and>
   sum_list (map bed_count
     [\<lparr>bed_chr = ''chr1'', bed_a_site = 112, bed_stop = 113, bed_count = 7\<rparr>,
      \<lparr>bed_chr = ''chr2'', bed_a_site = 52, bed_stop = 53, bed_count = 2\<rparr>])
     = sum_list (map count
         [\<lparr>count = 2, chr = ''chr2'', start = 40, stop = 68, length' = 28,
           tran_id = ''tranB'', bamcds_start = Some 1\<rparr>,
          \<lparr>count = 3, chr = ''chr1'', start = 100, stop = 128, length' = 28,
           tran_id = ''tranA'', bamcds_start = Some 5\<rparr>,
          \<lparr>count = 4, chr = ''chr1'', start = 98, stop = 128, length' = 30,
           tran_id = ''tranA'', bamcds_start = Some 3\<rparr>])"
proof -
  let ?df = "[\<lparr>count = 2, chr = ''chr2'', start = 40, stop = 68, length' = 28,
       tran_id = ''tranB'', bamcds_start = Some 1\<rparr>,
      \<lparr>count = 3, chr = ''chr1'', start = 100, stop = 128, length' = 28,
       tran_id = ''tranA'', bamcds_start = Some 5\<rparr>,
      \<lparr>count = 4, chr = ''chr1'', start = 98, stop = 128, length' = 30,
       tran_id = ''tranA'', bamcds_start = Some 3\<rparr>]"
  let ?offsets = "[28 \<mapsto> 12, 30 \<mapsto> (14::int)] :: int \<rightharpoonup> int"
  let ?bed = "[\<lparr>bed_chr = ''chr1'', bed_a_site = 112, bed_stop = 113, bed_count = 7\<rparr>,
            \<lparr>bed_chr = ''chr2'', bed_a_site = 52, bed_stop = 53, bed_count = 2\<rparr>]"
  have pre: "\<forall>r\<in>set ?df. length' r \<in> dom ?offsets" by simp
  have range: "asite_in_range ?offsets ?df"
    by (simp add: asite_in_range_def a_site_key_def int64_def)
  have ne: "?df \<noteq> []" by simp
  have ev: "asitecalc ?df ?offsets = Inr ?bed"
    by (simp add: asitecalc_def length_group_def group_sum_def asite_key_def to_bed_def
        bed_key_def wrap64_def)
  from asitecalc_conserves_counts[OF pre range] ne
  have "\<exists>bed. asitecalc ?df ?offsets = Inr bed \<and>
         sum_list (map bed_count bed) = sum_list (map count ?df)"
    by (simp only: simp_thms)
  then obtain bed where bed: "asitecalc ?df ?offsets = Inr bed"
    and total: "sum_list (map bed_count bed) = sum_list (map count ?df)"
    by (elim exE conjE)
  from bed ev have "bed = ?bed" by (simp only: sum.inject)
  with total have "sum_list (map bed_count ?bed) = sum_list (map count ?df)" by (simp only:)
  with range ev show ?thesis by (intro conjI)
qed

section \<open>The empty join\<close>

text \<open>
  Every chromosome the loop visits has an exon left in the restricted exon table, so
  \<^verbatim>\<open>min\<close> and \<^verbatim>\<open>max\<close> never raise and the loops end with \<open>all_results\<close>.
\<close>

lemma chr_loop_total:
  assumes "\<forall>c\<in>set cs. filter (\<lambda>e. exon_chr e = c) exon_flattened \<noteq> []"
  shows "chr_loop bam_df exon_flattened cs results =
     Inr (results @ concat (map (\<lambda>c.
        concat (map (window_result (filter (\<lambda>b. chr b = c) bam_df)
                       (filter (\<lambda>e. exon_chr e = c) exon_flattened))
                  (chr_windows (filter (\<lambda>e. exon_chr e = c) exon_flattened)))) cs))"
  using assms
proof (induction cs arbitrary: results)
  case Nil
  then show ?case by simp
next
  case (Cons c cs)
  then have ne: "filter (\<lambda>e. exon_chr e = c) exon_flattened \<noteq> []" by simp
  have "chr_results bam_df exon_flattened c =
      Inr (concat (map (window_result (filter (\<lambda>b. chr b = c) bam_df)
                       (filter (\<lambda>e. exon_chr e = c) exon_flattened))
                  (chr_windows (filter (\<lambda>e. exon_chr e = c) exon_flattened))))"
    using ne by (simp add: chr_results_def Let_def)
  with Cons show ?case by simp
qed

lemma shared_chr_exon_nonempty:
  assumes "c \<in> set (map chr (shared_chr_bam bam_df exon_df))"
  shows "filter (\<lambda>e. exon_chr e = c) (shared_chr_exon bam_df exon_df) \<noteq> []"
proof -
  from assms obtain b where b: "b \<in> set bam_df" "chr b = c" "c \<in> exon_chr ` set exon_df"
    by (auto simp: shared_chr_bam_def)
  then obtain e where e: "e \<in> set exon_df" "exon_chr e = c" by auto
  with b have "e \<in> set (shared_chr_exon bam_df exon_df)"
    by (auto simp: shared_chr_exon_def)
  with e have "e \<in> set (filter (\<lambda>e. exon_chr e = c) (shared_chr_exon bam_df exon_df))"
    by simp
  then show ?thesis by (auto simp del: set_filter)
qed

lemma window_result_empty:
  "window_result bam_with_chr exon_with_chr i = [] \<longleftrightarrow>
     window_bam bam_with_chr i = [] \<or> window_exon exon_with_chr i = []"
  by (auto simp: window_result_def Let_def)

lemma bamtranscript_eq:
  "bamtranscript bam_df exon_df =
     (if all_results bam_df exon_df = [] then Inl NoDataError
      else Inr (explode (all_results bam_df exon_df)))"
proof -
  have "\<forall>c\<in>set (remdups (map chr (shared_chr_bam bam_df exon_df))).
      filter (\<lambda>e. exon_chr e = c) (shared_chr_exon bam_df exon_df) \<noteq> []"
    using shared_chr_exon_nonempty[of _ bam_df exon_df] by simp
  then have "chr_loop (shared_chr_bam bam_df exon_df) (shared_chr_exon bam_df exon_df)
      (remdups (map chr (shared_chr_bam bam_df exon_df))) [] = Inr (all_results bam_df exon_df)"
    by (simp add: chr_loop_total all_results_def)
  then show ?thesis
    by (simp add: bamtranscript_def Let_def)
qed

lemma all_results_empty: "all_results bam_df exon_df = [] \<longleftrightarrow> no_joint_cell bam_df exon_df"
  unfolding all_results_def no_joint_cell_def cells_def cell_bam_def cell_exon_def
  by (auto simp: list_all_iff window_result_empty)

lemma explode_nonempty: "results \<noteq> [] \<Longrightarrow> explode results \<noteq> []"
  by (cases results) (auto simp: explode_def)

text \<open>
  C10.  When no cell of a shared chromosome and a window holds both a read and an exon,
  \<^verbatim>\<open>results\<close> stays empty and \<^verbatim>\<open>bamtranscript\<close> raises the \<^verbatim>\<open>NoDataError\<close> of
  \<^verbatim>\<open>pl.from_dicts\<close>; it returns no empty table.  When some cell holds both, it returns
  a table that has a row.
\<close>

theorem bamtranscript_no_joint_cell_raises:
  "(no_joint_cell bam_df exon_df \<longrightarrow> bamtranscript bam_df exon_df = Inl NoDataError) \<and>
   (\<not> no_joint_cell bam_df exon_df \<longrightarrow>
      (\<exists>rows. bamtranscript bam_df exon_df = Inr rows \<and> rows \<noteq> []))"
  by (simp add: bamtranscript_eq all_results_empty explode_nonempty)

text \<open>
  One chromosome with two exons, so two windows, starting at 100 and at 225100, and one
  read from 225090 to 225120 that crosses the boundary between them: the read is in
  neither window, and \<^verbatim>\<open>bamtranscript\<close> raises.
\<close>

theorem bamtranscript_no_joint_cell_raises_witness:
  "cells
     [\<lparr>count = 1, chr = ''chr1'', start = 225090, stop = 225120, length' = 30\<rparr>]
     [\<lparr>exon_chr = ''chr1'', exon_start = 100, exon_stop = 200, exon_tran_id = ''tranA'',
       tran_start = 0, tran_stop = 100\<rparr>,
      \<lparr>exon_chr = ''chr1'', exon_start = 225100, exon_stop = 225200, exon_tran_id = ''tranA'',
       tran_start = 100, tran_stop = 200\<rparr>] = [(''chr1'', 100), (''chr1'', 225100)] \<and>
   bamtranscript
     [\<lparr>count = 1, chr = ''chr1'', start = 225090, stop = 225120, length' = 30\<rparr>]
     [\<lparr>exon_chr = ''chr1'', exon_start = 100, exon_stop = 200, exon_tran_id = ''tranA'',
       tran_start = 0, tran_stop = 100\<rparr>,
      \<lparr>exon_chr = ''chr1'', exon_start = 225100, exon_stop = 225200, exon_tran_id = ''tranA'',
       tran_start = 100, tran_stop = 200\<rparr>] = Inl NoDataError"
proof -
  let ?bam = "[\<lparr>count = 1, chr = ''chr1'', start = 225090, stop = 225120, length' = 30\<rparr>]"
  let ?exon = "[\<lparr>exon_chr = ''chr1'', exon_start = 100, exon_stop = 200,
       exon_tran_id = ''tranA'', tran_start = 0, tran_stop = 100\<rparr>,
      \<lparr>exon_chr = ''chr1'', exon_start = 225100, exon_stop = 225200,
       exon_tran_id = ''tranA'', tran_start = 100, tran_stop = 200\<rparr>]"
  have c: "cells ?bam ?exon = [(''chr1'', 100), (''chr1'', 225100)]"
    by (simp add: cells_def shared_chr_bam_def shared_chr_exon_def chr_windows_def
        py_range.simps)
  have "no_joint_cell ?bam ?exon"
    by (simp add: no_joint_cell_def c cell_bam_def cell_exon_def shared_chr_bam_def
        shared_chr_exon_def window_bam_def window_exon_def)
  with bamtranscript_no_joint_cell_raises[of ?bam ?exon]
  have "bamtranscript ?bam ?exon = Inl NoDataError"
    by (simp only: simp_thms)
  with c show ?thesis by (rule conjI)
qed

end
